theory Spec2Isabelle
  imports Complex_Main "HOL-Library.Sublist"
begin

section \<open>Values shared by the modelled functions\<close>

text \<open>
  A value thrown in JavaScript is either an \<^verbatim>\<open>Error\<close> instance (kept with its message) or
  any other value (kept as the text \<^verbatim>\<open>String(value)\<close> gives). The distinction is the one
  the source makes with \<^verbatim>\<open>error instanceof Error\<close>.
\<close>

datatype thrown = ErrorObj string | NonError string

text \<open>
  \<^verbatim>\<open>showNotice(message, options)\<close> of \<^verbatim>\<open>errorUtils\<close> receives either the Error itself or a
  text, together with the options \<^verbatim>\<open>debug\<close>, \<^verbatim>\<open>context\<close> and \<^verbatim>\<open>type\<close>. Only the call is
  recorded; the function is assumed to return normally.
\<close>

datatype notice_message = OfError string | OfText string

record shown_notice =
  message :: notice_message
  noticeDebug :: bool
  noticeContext :: string
  noticeType :: string

text \<open>
  Some calls of \<^verbatim>\<open>showNotice\<close> have another shape: a type as second argument before the
  options, or the options \<^verbatim>\<open>duration\<close> and \<^verbatim>\<open>prefix\<close>. Such a call is recorded with its
  arguments as they are passed; an option that is not passed is \<open>None\<close>.
\<close>

record notice_options =
  optDebug :: bool
  optContext :: string
  optType :: "string option"
  optDuration :: "nat option"
  optPrefix :: "string option"

text \<open>The fields of the plugin settings that the modelled functions read.\<close>

record settings =
  debug :: bool
  useCache :: bool
  enableFavicon :: bool
  respectImageAspectRatio :: bool
  useMetadataTemplate :: bool
  metadataTemplate :: string

section \<open>Numbers: the doubles of JavaScript\<close>

text \<open>
  A number of JavaScript is an IEEE 754 double: not-a-number, an infinity, or a finite
  value, kept here as the rational it denotes (the two zeros are not told apart).
\<close>

datatype jsnum = NaN | PosInfinity | NegInfinity | Finite rat

text \<open>The number of binary digits of a natural number.\<close>

function bits :: "nat \<Rightarrow> nat" where
  "bits n = (if n = 0 then 0 else bits (n div 2) + 1)"
  by pat_completeness auto
termination
  by (relation "measure (\<lambda>n. n)") auto

declare bits.simps [simp del]

definition pow2 :: "int \<Rightarrow> rat" where
  "pow2 k = (if 0 \<le> k then 2 ^ nat k else 1 / 2 ^ nat (- k))"

text \<open>The binary exponent of a positive rational \<open>x\<close>: the \<open>e\<close> with \<open>2^e \<le> x < 2^(e+1)\<close>.\<close>

definition binaryExponent :: "rat \<Rightarrow> int" where
  "binaryExponent x =
     (if 1 \<le> x then int (bits (nat \<lfloor>x\<rfloor>)) - 1
      else - int (bits (nat \<lceil>1 / x\<rceil> - 1)))"

text \<open>The nearest integer, a tie going to the even one.\<close>

definition nearestEven :: "rat \<Rightarrow> int" where
  "nearestEven m =
     (let f = \<lfloor>m\<rfloor>; d = m - of_int f in
      if d < 1 / 2 then f
      else if 1 / 2 < d then f + 1
      else if even f then f else f + 1)"

text \<open>
  The double nearest to a rational (round to nearest, ties to even): 53 significant
  binary digits, the least exponent -1022 with the subnormal numbers below it, and
  an infinity from \<open>2^1024\<close> on.
\<close>

definition roundDouble :: "rat \<Rightarrow> jsnum" where
  "roundDouble x =
     (if x = 0 then Finite 0
      else
        (let ax = \<bar>x\<bar>;
             e = max (binaryExponent ax) (- 1022);
             ulp = pow2 (e - 52);
             v = of_int (nearestEven (ax / ulp)) * ulp
         in if pow2 1024 \<le> v then (if 0 < x then PosInfinity else NegInfinity)
            else Finite (if 0 < x then v else - v)))"

text \<open>Truthiness of a number: \<^verbatim>\<open>0\<close> and \<^verbatim>\<open>NaN\<close> are falsy.\<close>

definition truthyNumber :: "jsnum \<Rightarrow> bool" where
  "truthyNumber a = (case a of NaN \<Rightarrow> False | Finite r \<Rightarrow> r \<noteq> 0 | _ \<Rightarrow> True)"

text \<open>
  The quotient \<^verbatim>\<open>n / a\<close> of a finite \<open>n\<close> above 0 by a number \<open>a\<close>. A zero divisor gives an
  infinity whose sign is that of the zero; the zero is taken to be the positive one
  here, and the code divides by truthy numbers only.
\<close>

definition quotientBy :: "rat \<Rightarrow> jsnum \<Rightarrow> jsnum" where
  "quotientBy n a =
     (case a of
        NaN \<Rightarrow> NaN
      | PosInfinity \<Rightarrow> Finite 0
      | NegInfinity \<Rightarrow> Finite 0
      | Finite r \<Rightarrow> if r = 0 then PosInfinity else roundDouble (n / r))"

text \<open>\<^verbatim>\<open>Math.round\<close>: the nearest integer, a tie going upwards.\<close>

definition mathRound :: "jsnum \<Rightarrow> jsnum" where
  "mathRound x = (case x of Finite r \<Rightarrow> Finite (of_int \<lfloor>r + 1 / 2\<rfloor>) | _ \<Rightarrow> x)"

section \<open>The fallback orchestrator \<^verbatim>\<open>tryParsers\<close> (embedUtils.ts)\<close>

text \<open>
  \<^verbatim>\<open>createParser\<close> and the parsers' \<^verbatim>\<open>parse\<close> live in the \<^verbatim>\<open>parsers\<close> module; they are
  parameters here. Either may throw. \<^verbatim>\<open>parse\<close> receives the parser together with the two
  fields the orchestrator assigns before the call (\<^verbatim>\<open>parser.debug\<close>, \<^verbatim>\<open>parser.location\<close>)
  and the URL.
\<close>

record ('p, 'd) parser_env =
  createParser :: "string \<Rightarrow> thrown + 'p"
  parse :: "'p \<Rightarrow> bool \<Rightarrow> string \<Rightarrow> string \<Rightarrow> thrown + 'd"

text \<open>
  What the orchestrator does to the outside world, in order. Every \<^verbatim>\<open>new Notice(text, 0)\<close>
  gets the next free number, so that the \<^verbatim>\<open>hide()\<close> calls can be matched with the notice
  they retract. \<^verbatim>\<open>console.log\<close> output is not recorded.
\<close>

datatype tp_event =
    NoticeNew nat string
  | NoticeHide nat
  | CreateParser string
  | ParseCall string string
  | FailureNotice shown_notice

record tp_state =
  notice :: "nat option"
  nextNotice :: nat
  trace :: "tp_event list"

definition tp_init :: tp_state where
  "tp_init = \<lparr>notice = None, nextNotice = 0, trace = []\<rparr>"

definition emit :: "tp_event \<Rightarrow> tp_state \<Rightarrow> tp_state" where
  "emit ev s = s\<lparr>trace := trace s @ [ev]\<rparr>"

text \<open>\<^verbatim>\<open>if (notice) { notice.hide(); }\<close>: the variable keeps pointing at the hidden notice.\<close>

definition hideNotice :: "tp_state \<Rightarrow> tp_state" where
  "hideNotice s = (case notice s of None \<Rightarrow> s | Some i \<Rightarrow> emit (NoticeHide i) s)"

text \<open>\<^verbatim>\<open>notice = new Notice(text, 0)\<close>\<close>

definition newNotice :: "string \<Rightarrow> tp_state \<Rightarrow> tp_state" where
  "newNotice txt s =
     (emit (NoticeNew (nextNotice s) txt) s)
       \<lparr>notice := Some (nextNotice s), nextNotice := Suc (nextNotice s)\<rparr>"

definition progressText :: "string \<Rightarrow> string" where
  "progressText selectedParser = ''Fetching link metadata using '' @ selectedParser @ ''...''"

text \<open>\<^verbatim>\<open>error instanceof Error ? error : String(error)\<close>\<close>

definition asNoticeMessage :: "thrown \<Rightarrow> notice_message" where
  "asNoticeMessage e = (case e of ErrorObj m \<Rightarrow> OfError m | NonError v \<Rightarrow> OfText v)"

definition parserFailureNotice :: "settings \<Rightarrow> thrown \<Rightarrow> shown_notice" where
  "parserFailureNotice st e =
     \<lparr>message = asNoticeMessage e, noticeDebug = debug st,
      noticeContext = ''Link Embed - Parser'', noticeType = ''error''\<rparr>"

text \<open>
  The body of the inner \<^verbatim>\<open>try\<close> up to the result of \<^verbatim>\<open>await parser.parse(url)\<close>: the
  parser is created, and only a created parser is asked to parse.
\<close>

definition attempt ::
  "('p, 'd) parser_env \<Rightarrow> settings \<Rightarrow> string \<Rightarrow> string \<Rightarrow> string \<Rightarrow> tp_state
     \<Rightarrow> (thrown + 'd) \<times> tp_state" where
  "attempt P st locationInfo url selectedParser s =
     (let s1 = emit (CreateParser selectedParser) s in
      case createParser P selectedParser of
        Inl e \<Rightarrow> (Inl e, s1)
      | Inr parser \<Rightarrow>
          (parse P parser (debug st) locationInfo url,
           emit (ParseCall selectedParser url) s1))"

text \<open>
  \<^verbatim>\<open>new Error('All parsers failed')\<close>, the only error the orchestrator creates itself.
\<close>

definition allParsersFailedError :: thrown where
  "allParsersFailedError = ErrorObj ''All parsers failed''"

text \<open>
  The \<^verbatim>\<open>while (idx < selectedParsers.length)\<close> loop together with the statements after it.
  The list argument is the part of \<^verbatim>\<open>selectedParsers\<close> from \<^verbatim>\<open>idx\<close> on, so
  \<^verbatim>\<open>idx === selectedParsers.length\<close> after \<^verbatim>\<open>idx += 1\<close> is the test that the rest is empty.
  The first equation is the code after the loop; the loop leaves normally only when
  its condition fails, and every iteration either returns, throws or continues with a
  non-empty rest.
\<close>

fun tryLoop ::
  "('p, 'd) parser_env \<Rightarrow> settings \<Rightarrow> string \<Rightarrow> string \<Rightarrow> string list \<Rightarrow> tp_state
     \<Rightarrow> (thrown + ('d \<times> string)) \<times> tp_state" where
  "tryLoop P st locationInfo url [] s =
     (Inl allParsersFailedError, hideNotice s)"
| "tryLoop P st locationInfo url (selectedParser # rest) s =
     (let s1 = newNotice (progressText selectedParser) (hideNotice s) in
      case attempt P st locationInfo url selectedParser s1 of
        (Inr data, s2) \<Rightarrow> (Inr (data, selectedParser), hideNotice s2)
      | (Inl e, s2) \<Rightarrow>
          (let s3 = emit (FailureNotice (parserFailureNotice st e)) s2 in
           if rest = [] then (Inl e, hideNotice s3)
           else tryLoop P st locationInfo url rest s3))"

text \<open>
  \<^verbatim>\<open>tryParsers\<close>: the loop inside the outer \<^verbatim>\<open>try\<close>, whose \<^verbatim>\<open>catch\<close> hides the notice
  once more and throws the same error again.
\<close>

definition tryParsers ::
  "('p, 'd) parser_env \<Rightarrow> string \<Rightarrow> string list \<Rightarrow> settings \<Rightarrow> string
     \<Rightarrow> (thrown + ('d \<times> string)) \<times> tp_state" where
  "tryParsers P url selectedParsers st locationInfo =
     (case tryLoop P st locationInfo url selectedParsers tp_init of
        (Inl e, s) \<Rightarrow> (Inl e, hideNotice s)
      | (Inr r, s) \<Rightarrow> (Inr r, s))"

text \<open>Whether one parser succeeds on the URL: creation followed by \<^verbatim>\<open>parse\<close>.\<close>

definition parserOutcome ::
  "('p, 'd) parser_env \<Rightarrow> settings \<Rightarrow> string \<Rightarrow> string \<Rightarrow> string \<Rightarrow> thrown + 'd" where
  "parserOutcome P st locationInfo url selectedParser =
     (case createParser P selectedParser of
        Inl e \<Rightarrow> Inl e
      | Inr parser \<Rightarrow> parse P parser (debug st) locationInfo url)"

text \<open>Readings of a trace.\<close>

fun createdParsers :: "tp_event list \<Rightarrow> string list" where
  "createdParsers [] = []"
| "createdParsers (CreateParser n # es) = n # createdParsers es"
| "createdParsers (_ # es) = createdParsers es"

fun parseCalls :: "tp_event list \<Rightarrow> (string \<times> string) list" where
  "parseCalls [] = []"
| "parseCalls (ParseCall n u # es) = (n, u) # parseCalls es"
| "parseCalls (_ # es) = parseCalls es"

fun failureNotices :: "tp_event list \<Rightarrow> shown_notice list" where
  "failureNotices [] = []"
| "failureNotices (FailureNotice n # es) = n # failureNotices es"
| "failureNotices (_ # es) = failureNotices es"

fun progressNotices :: "tp_event list \<Rightarrow> string list" where
  "progressNotices [] = []"
| "progressNotices (NoticeNew i txt # es) = txt # progressNotices es"
| "progressNotices (_ # es) = progressNotices es"

text \<open>The notices that were displayed and not hidden afterwards.\<close>

fun openNotices :: "tp_event list \<Rightarrow> nat list" where
  "openNotices [] = []"
| "openNotices (NoticeNew i txt # es) =
     (if NoticeHide i \<in> set es then openNotices es else i # openNotices es)"
| "openNotices (_ # es) = openNotices es"

text \<open>
  The parse calls a run over \<^verbatim>\<open>names\<close> makes when every one of them is attempted: one
  for each name whose parser could be created.
\<close>

definition parsedBy :: "('p, 'd) parser_env \<Rightarrow> string \<Rightarrow> string list \<Rightarrow> (string \<times> string) list" where
  "parsedBy P url names = map (\<lambda>n. (n, url)) (filter (\<lambda>n. \<not> isl (createParser P n)) names)"

text \<open>
  The loop invariant for the progress notice: a notice that is still displayed is the
  one the variable \<^verbatim>\<open>notice\<close> holds.
\<close>

definition pending_ok :: "tp_state \<Rightarrow> bool" where
  "pending_ok s = (set (openNotices (trace s)) \<subseteq> set_option (notice s))"

text \<open>A concrete environment for evaluation: two working parsers, one that fails on
  every URL, and a name for which no parser can be created.\<close>

definition demoParsers :: "(string, string) parser_env" where
  "demoParsers =
     \<lparr>createParser = (\<lambda>n. if n = ''broken'' then Inl (NonError ''no such parser'') else Inr n),
      parse = (\<lambda>p dbg loc u. if p = ''local'' then Inl (ErrorObj ''timeout'') else Inr (''Example'' @ '' via '' @ p))\<rparr>"

definition demoSettings :: settings where
  "demoSettings =
     \<lparr>debug = False, useCache = True, enableFavicon = True, respectImageAspectRatio = True,
      useMetadataTemplate = False, metadataTemplate = []\<rparr>"

section \<open>Favicon resolution \<^verbatim>\<open>getFavicon\<close> (embedUtils.ts)\<close>

text \<open>
  The plugin's cache is one \<^verbatim>\<open>Map<string, any>\<close> shared by favicons (keyed by URL) and
  image dimensions (keyed by image reference).
\<close>

record image_dimensions =
  width :: jsnum
  height :: jsnum
  dimAspectRatio :: jsnum

datatype cached = Str string | Dims image_dimensions

text \<open>
  What \<^verbatim>\<open>getFavicon\<close> and the code-block handler do to the outside world, in order:
  every access to the cache, every call into the local parser, the browser or the
  vault, every notice and every rendering. \<^verbatim>\<open>console.log\<close> output is not recorded.
\<close>

datatype ('i, 'r) effect =
    CacheHas string
  | CacheGet string
  | CacheSet string cached
  | CreateLocalParser
  | HtmlByElectron string
  | HtmlByRequest string
  | ParseFromString string
  | NewURL string
  | ExtractFavicon
  | ShowNotice shown_notice
  | ShowNoticeCall notice_message "string option" notice_options
  | ImageFileToBase64 string
  | GetImageDimensions string
  | RenderEmbed 'i 'r
  | AddButtonHandlers 'i

record ('i, 'r) world =
  cache :: "string \<rightharpoonup> cached"
  effects :: "('i, 'r) effect list"

definition effect :: "('i, 'r) effect \<Rightarrow> ('i, 'r) world \<Rightarrow> ('i, 'r) world" where
  "effect ev w = w\<lparr>effects := effects w @ [ev]\<rparr>"

text \<open>\<^verbatim>\<open>cache.set(key, value)\<close>\<close>

definition cacheSet :: "string \<Rightarrow> cached \<Rightarrow> ('i, 'r) world \<Rightarrow> ('i, 'r) world" where
  "cacheSet key v w = (effect (CacheSet key v) w)\<lparr>cache := (cache w)(key \<mapsto> v)\<rparr>"

text \<open>
  The local parser (module \<^verbatim>\<open>parsers\<close>), the browser's \<^verbatim>\<open>DOMParser\<close> and \<^verbatim>\<open>URL\<close> are
  parameters. The two fetch strategies answer with the HTML, with \<^verbatim>\<open>null\<close> (\<open>None\<close>), or
  throw; \<^verbatim>\<open>new URL(url)\<close> throws on a text that is no URL; the parser's own
  \<^verbatim>\<open>getFavicon(doc, urlObj)\<close> answers with a favicon, with \<^verbatim>\<open>null\<close>, or throws. The
  Boolean argument is the \<^verbatim>\<open>debug\<close> field assigned to the parser.
\<close>

record ('p, 'doc, 'u) favicon_env =
  createLocalParser :: "thrown + 'p"
  getHtmlByElectron :: "'p \<Rightarrow> bool \<Rightarrow> string \<Rightarrow> thrown + string option"
  getHtmlByRequest :: "'p \<Rightarrow> bool \<Rightarrow> string \<Rightarrow> thrown + string option"
  parseFromString :: "string \<Rightarrow> 'doc"
  newURL :: "string \<Rightarrow> thrown + 'u"
  parserGetFavicon :: "'p \<Rightarrow> bool \<Rightarrow> 'doc \<Rightarrow> 'u \<Rightarrow> thrown + string option"

text \<open>
  \<^verbatim>\<open>(await localParser.getHtmlByElectron(url)) || (await localParser.getHtmlByRequest(url))\<close>:
  the second strategy runs only when the first returned \<^verbatim>\<open>null\<close> or the empty string.
\<close>

definition fetchHtml ::
  "('p, 'doc, 'u) favicon_env \<Rightarrow> 'p \<Rightarrow> bool \<Rightarrow> string \<Rightarrow> ('i, 'r) world
     \<Rightarrow> (thrown + string option) \<times> ('i, 'r) world" where
  "fetchHtml E localParser dbg url w =
     (let w1 = effect (HtmlByElectron url) w in
      case getHtmlByElectron E localParser dbg url of
        Inl e \<Rightarrow> (Inl e, w1)
      | Inr None \<Rightarrow> (getHtmlByRequest E localParser dbg url, effect (HtmlByRequest url) w1)
      | Inr (Some h) \<Rightarrow>
          if h = [] then (getHtmlByRequest E localParser dbg url, effect (HtmlByRequest url) w1)
          else (Inr (Some h), w1))"

text \<open>The body of the \<^verbatim>\<open>try\<close> block: \<open>Inl\<close> is a value thrown inside it.\<close>

definition getFaviconBody ::
  "('p, 'doc, 'u) favicon_env \<Rightarrow> string \<Rightarrow> settings \<Rightarrow> bool \<Rightarrow> ('i, 'r) world
     \<Rightarrow> (thrown + cached) \<times> ('i, 'r) world" where
  "getFaviconBody E url st dbg w =
     (let w1 = effect CreateLocalParser w in
      case createLocalParser E of
        Inl e \<Rightarrow> (Inl e, w1)
      | Inr localParser \<Rightarrow>
          (case fetchHtml E localParser dbg url w1 of
             (Inl e, w2) \<Rightarrow> (Inl e, w2)
           | (Inr None, w2) \<Rightarrow> (Inr (Str []), w2)
           | (Inr (Some html), w2) \<Rightarrow>
               if html = [] then (Inr (Str []), w2)
               else
                 (let w3 = effect (ParseFromString html) w2;
                      doc = parseFromString E html;
                      w4 = effect (NewURL url) w3 in
                  case newURL E url of
                    Inl e \<Rightarrow> (Inl e, w4)
                  | Inr urlObj \<Rightarrow>
                      (let w5 = effect ExtractFavicon w4 in
                       case parserGetFavicon E localParser dbg doc urlObj of
                         Inl e \<Rightarrow> (Inl e, w5)
                       | Inr None \<Rightarrow> (Inr (Str []), w5)
                       | Inr (Some favicon) \<Rightarrow>
                           if favicon \<noteq> [] \<and> useCache st
                           then (Inr (Str favicon), cacheSet url (Str favicon) w5)
                           else if favicon \<noteq> [] then (Inr (Str favicon), w5)
                           else (Inr (Str []), w5)))))"

text \<open>The notice of the \<^verbatim>\<open>catch\<close> block.\<close>

definition faviconErrorNotice :: "bool \<Rightarrow> thrown \<Rightarrow> shown_notice" where
  "faviconErrorNotice dbg e =
     \<lparr>message = (case e of ErrorObj m \<Rightarrow> OfError m
                  | NonError v \<Rightarrow> OfText (''Error fetching favicon: '' @ v)),
      noticeDebug = dbg, noticeContext = ''Link Embed - Favicon'', noticeType = ''error''\<rparr>"

text \<open>\<^verbatim>\<open>try { ... } catch (error) { showNotice(...); return ''; }\<close>\<close>

definition getFaviconGuarded ::
  "('p, 'doc, 'u) favicon_env \<Rightarrow> string \<Rightarrow> settings \<Rightarrow> bool \<Rightarrow> ('i, 'r) world
     \<Rightarrow> (thrown + cached) \<times> ('i, 'r) world" where
  "getFaviconGuarded E url st dbg w =
     (case getFaviconBody E url st dbg w of
        (Inl e, w') \<Rightarrow> (Inr (Str []), effect (ShowNotice (faviconErrorNotice dbg e)) w')
      | (Inr v, w') \<Rightarrow> (Inr v, w'))"

text \<open>
  \<^verbatim>\<open>getFavicon(url, settings, cache, debug)\<close>. The result \<open>Inr v\<close> is the value the promise
  resolves to, \<open>Inl e\<close> a rejection. \<^verbatim>\<open>settings.useCache && cache.has(url)\<close> asks the cache
  only when caching is enabled.
\<close>

definition getFavicon ::
  "('p, 'doc, 'u) favicon_env \<Rightarrow> string \<Rightarrow> settings \<Rightarrow> ('i, 'r) world \<Rightarrow> bool
     \<Rightarrow> (thrown + cached) \<times> ('i, 'r) world" where
  "getFavicon E url st w dbg =
     (if useCache st then
        (let w0 = effect (CacheHas url) w in
         case cache w url of
           Some v \<Rightarrow> (Inr v, effect (CacheGet url) w0)
         | None \<Rightarrow> getFaviconGuarded E url st dbg w0)
      else getFaviconGuarded E url st dbg w)"

text \<open>
  \<^verbatim>\<open>getFavicon\<close> is an \<^verbatim>\<open>async\<close> function: a call runs at once up to its first \<^verbatim>\<open>await\<close>, and
  the rest runs when the awaited answer has arrived. The first part asks the cache,
  creates the parser and calls \<^verbatim>\<open>getHtmlByElectron\<close>; it ends with the promise settled
  (the cache answered, or the creation of the parser threw and the \<^verbatim>\<open>catch\<close> block ran)
  or with the call waiting for the first fetch.
\<close>

datatype 'p favicon_call = Settled cached | Waiting 'p

definition getFaviconStart ::
  "('p, 'doc, 'u) favicon_env \<Rightarrow> string \<Rightarrow> settings \<Rightarrow> ('i, 'r) world \<Rightarrow> bool
     \<Rightarrow> 'p favicon_call \<times> ('i, 'r) world" where
  "getFaviconStart E url st w dbg =
     (let w0 = (if useCache st then effect (CacheHas url) w else w) in
      case (if useCache st then cache w url else None) of
        Some v \<Rightarrow> (Settled v, effect (CacheGet url) w0)
      | None \<Rightarrow>
          (let w1 = effect CreateLocalParser w0 in
           case createLocalParser E of
             Inl e \<Rightarrow> (Settled (Str []), effect (ShowNotice (faviconErrorNotice dbg e)) w1)
           | Inr localParser \<Rightarrow> (Waiting localParser, effect (HtmlByElectron url) w1)))"

text \<open>
  The rest of a waiting call, from the answer of \<^verbatim>\<open>getHtmlByElectron\<close> on, run in one
  piece: \<open>Inr v\<close> is the value the promise resolves to.
\<close>

definition getFaviconFinish ::
  "('p, 'doc, 'u) favicon_env \<Rightarrow> string \<Rightarrow> settings \<Rightarrow> bool \<Rightarrow> 'p \<Rightarrow> ('i, 'r) world
     \<Rightarrow> (thrown + cached) \<times> ('i, 'r) world" where
  "getFaviconFinish E url st dbg localParser w =
     (let fetched =
        (case getHtmlByElectron E localParser dbg url of
           Inl e \<Rightarrow> (Inl e, w)
         | Inr None \<Rightarrow> (getHtmlByRequest E localParser dbg url, effect (HtmlByRequest url) w)
         | Inr (Some h) \<Rightarrow>
             if h = [] then (getHtmlByRequest E localParser dbg url, effect (HtmlByRequest url) w)
             else (Inr (Some h), w));
          body =
        (case fetched of
           (Inl e, w2) \<Rightarrow> (Inl e, w2)
         | (Inr None, w2) \<Rightarrow> (Inr (Str []), w2)
         | (Inr (Some html), w2) \<Rightarrow>
             if html = [] then (Inr (Str []), w2)
             else
               (let w3 = effect (ParseFromString html) w2;
                    doc = parseFromString E html;
                    w4 = effect (NewURL url) w3 in
                case newURL E url of
                  Inl e \<Rightarrow> (Inl e, w4)
                | Inr urlObj \<Rightarrow>
                    (let w5 = effect ExtractFavicon w4 in
                     case parserGetFavicon E localParser dbg doc urlObj of
                       Inl e \<Rightarrow> (Inl e, w5)
                     | Inr None \<Rightarrow> (Inr (Str []), w5)
                     | Inr (Some favicon) \<Rightarrow>
                         if favicon \<noteq> [] \<and> useCache st
                         then (Inr (Str favicon), cacheSet url (Str favicon) w5)
                         else if favicon \<noteq> [] then (Inr (Str favicon), w5)
                         else (Inr (Str []), w5))))
      in case body of
           (Inl e, w') \<Rightarrow> (Inr (Str []), effect (ShowNotice (faviconErrorNotice dbg e)) w')
         | (Inr v, w') \<Rightarrow> (Inr v, w'))"

text \<open>Whether an effect touches the cache.\<close>

fun isCacheAccess :: "('i, 'r) effect \<Rightarrow> bool" where
  "isCacheAccess (CacheHas k) = True"
| "isCacheAccess (CacheGet k) = True"
| "isCacheAccess (CacheSet k v) = True"
| "isCacheAccess _ = False"

fun shownNotices :: "('i, 'r) effect list \<Rightarrow> shown_notice list" where
  "shownNotices [] = []"
| "shownNotices (ShowNotice n # es) = n # shownNotices es"
| "shownNotices (_ # es) = shownNotices es"

text \<open>A concrete environment for evaluation: pages are fetched by the second strategy
  only, \<^verbatim>\<open>https://down.example\<close> cannot be fetched at all, and only the page whose HTML
  mentions an icon has a favicon.\<close>

definition demoFavicons :: "(unit, string, string) favicon_env" where
  "demoFavicons =
     \<lparr>createLocalParser = Inr (),
      getHtmlByElectron = (\<lambda>p dbg u. Inr None),
      getHtmlByRequest = (\<lambda>p dbg u.
         if u = ''https://down.example'' then Inr None
         else if u = ''https://reset.example'' then Inl (ErrorObj ''net::ERR_CONNECTION_RESET'')
         else if u = ''https://plain.example'' then Inr (Some ''<html></html>'')
         else Inr (Some ''<link rel=icon href=/i.png>'')),
      parseFromString = (\<lambda>h. h),
      newURL = (\<lambda>u. Inr u),
      parserGetFavicon = (\<lambda>p dbg doc u.
         if doc = ''<html></html>'' then Inr None else Inr (Some (u @ ''/i.png'')))\<rparr>"

definition emptyWorld :: "(unit, unit) world" where
  "emptyWorld = \<lparr>cache = Map.empty, effects = []\<rparr>"

text \<open>The effects a call added to the world it started in.\<close>

definition newEffects :: "('i, 'r) world \<Rightarrow> ('i, 'r) world \<Rightarrow> ('i, 'r) effect list" where
  "newEffects w w' = drop (length (effects w)) (effects w')"

text \<open>The answer of the two fetch strategies together, without the effects.\<close>

definition fetchedHtml ::
  "('p, 'doc, 'u) favicon_env \<Rightarrow> 'p \<Rightarrow> bool \<Rightarrow> string \<Rightarrow> thrown + string option" where
  "fetchedHtml E localParser dbg url =
     (case getHtmlByElectron E localParser dbg url of
        Inl e \<Rightarrow> Inl e
      | Inr None \<Rightarrow> getHtmlByRequest E localParser dbg url
      | Inr (Some h) \<Rightarrow> if h = [] then getHtmlByRequest E localParser dbg url else Inr (Some h))"

text \<open>
  The answer of the parser's own \<^verbatim>\<open>getFavicon(doc, urlObj)\<close> when the \<^verbatim>\<open>try\<close> block gets as far as
  asking it: a parser was created, a non-empty HTML text was fetched and the URL was
  accepted by \<^verbatim>\<open>new URL\<close>.
\<close>

definition faviconExtraction ::
  "('p, 'doc, 'u) favicon_env \<Rightarrow> string \<Rightarrow> bool \<Rightarrow> (thrown + string option) option" where
  "faviconExtraction E url dbg =
     (case createLocalParser E of
        Inl e \<Rightarrow> None
      | Inr localParser \<Rightarrow>
          (case fetchedHtml E localParser dbg url of
             Inr (Some html) \<Rightarrow>
               if html = [] then None
               else (case newURL E url of
                       Inl e \<Rightarrow> None
                     | Inr urlObj \<Rightarrow>
                         Some (parserGetFavicon E localParser dbg (parseFromString E html) urlObj))
           | _ \<Rightarrow> None))"

text \<open>Both fetch strategies end without HTML: the branch \<^verbatim>\<open>if (!html)\<close>, which the source
  logs as \<^verbatim>\<open>Failed to fetch HTML for favicon\<close> in debug mode.\<close>

definition noHtml :: "('p, 'doc, 'u) favicon_env \<Rightarrow> string \<Rightarrow> bool \<Rightarrow> bool" where
  "noHtml E url dbg =
     (case createLocalParser E of
        Inl e \<Rightarrow> False
      | Inr localParser \<Rightarrow>
          fetchedHtml E localParser dbg url = Inr None
          \<or> fetchedHtml E localParser dbg url = Inr (Some []))"

text \<open>\<^verbatim>\<open>settings.useCache && cache.has(url)\<close>\<close>

definition cacheHit :: "settings \<Rightarrow> ('i, 'r) world \<Rightarrow> string \<Rightarrow> bool" where
  "cacheHit st w url = (useCache st \<and> cache w url \<noteq> None)"

text \<open>A world whose cache knows the favicon of one URL.\<close>

definition cachedWorld :: "(unit, unit) world" where
  "cachedWorld =
     \<lparr>cache = [''https://example.com'' \<mapsto> Str ''https://example.com/favicon.ico''], effects = []\<rparr>"

section \<open>Rendering: \<^verbatim>\<open>renderEmbed\<close> (embedUtils.ts)\<close>

text \<open>
  The fields of an embed block as \<^verbatim>\<open>parseYaml\<close> delivers them (\<^verbatim>\<open>EmbedInfo\<close> of the module
  \<^verbatim>\<open>constants\<close>); \<open>None\<close> is a missing key. The favicon may come out of the cache, whose
  values are untyped.
\<close>

record embed_info =
  info_title :: "string option"
  info_image :: "string option"
  info_description :: "string option"
  info_url :: "string option"
  info_favicon :: "cached option"
  info_aspectRatio :: "jsnum option"

text \<open>The object \<^verbatim>\<open>templateData\<close> that \<^verbatim>\<open>renderEmbed\<close> hands to the HTML template.\<close>

record template_data =
  tpl_title :: "string option"
  tpl_image :: "string option"
  tpl_description :: "string option"
  tpl_url :: "string option"
  tpl_respectAR :: bool
  tpl_calculatedWidth :: jsnum
  tpl_favicon :: "cached option"

text \<open>
  \<^verbatim>\<open>aspectRatio ? Math.round((baseWidth * 100) / aspectRatio) : baseWidth * 100\<close>: a missing
  ratio, the ratio 0 and \<^verbatim>\<open>NaN\<close> are falsy; the quotient is the double nearest to the exact
  quotient, and \<^verbatim>\<open>Math.round\<close> is applied to this double. The ratio is a number, as the
  parameter is declared.
\<close>

definition calculatedWidth :: "jsnum option \<Rightarrow> jsnum" where
  "calculatedWidth aspectRatio =
     (let baseWidth = 160 in
      case aspectRatio of
        None \<Rightarrow> Finite (baseWidth * 100)
      | Some a \<Rightarrow>
          if truthyNumber a then mathRound (quotientBy (baseWidth * 100) a)
          else Finite (baseWidth * 100))"

text \<open>
  \<^verbatim>\<open>renderEmbed(renderInfo, imageUrl, aspectRatio, el, settings)\<close> up to the template data;
  the HTML made from them and the replacement of the element are the effect
  \<^const>\<open>RenderEmbed\<close> of the caller.
\<close>

definition renderEmbed ::
  "embed_info \<Rightarrow> string option \<Rightarrow> jsnum option \<Rightarrow> settings \<Rightarrow> template_data" where
  "renderEmbed renderInfo imageUrl aspectRatio st =
     \<lparr>tpl_title = info_title renderInfo,
      tpl_image = imageUrl,
      tpl_description = info_description renderInfo,
      tpl_url = info_url renderInfo,
      tpl_respectAR = respectImageAspectRatio st,
      tpl_calculatedWidth = calculatedWidth aspectRatio,
      tpl_favicon = (if enableFavicon st then info_favicon renderInfo else Some (Str []))\<rparr>"

section \<open>Strings: the searches of JavaScript\<close>

text \<open>
  Texts are lists of code units; positions count from 0. \<^verbatim>\<open>x\<close> occurs in \<^verbatim>\<open>s\<close> at position
  \<^verbatim>\<open>j\<close> when \<^verbatim>\<open>x\<close> is a prefix of \<^verbatim>\<open>s\<close> without its first \<^verbatim>\<open>j\<close> units.
\<close>

definition occursAt :: "string \<Rightarrow> string \<Rightarrow> nat \<Rightarrow> bool" where
  "occursAt x s j = (j \<le> length s \<and> prefix x (drop j s))"

text \<open>All positions at which \<^verbatim>\<open>x\<close> occurs in \<^verbatim>\<open>s\<close>, in increasing order.\<close>

definition occurrences :: "string \<Rightarrow> string \<Rightarrow> nat list" where
  "occurrences x s = filter (occursAt x s) [0 ..< Suc (length s)]"

text \<open>
  \<^verbatim>\<open>s.indexOf(x, fromIndex)\<close>: the smallest position not below \<^verbatim>\<open>fromIndex\<close> (clamped to the
  length) at which \<^verbatim>\<open>x\<close> occurs, or -1.
\<close>

definition indexOf :: "string \<Rightarrow> string \<Rightarrow> nat \<Rightarrow> int" where
  "indexOf s x fromIndex =
     (case find (occursAt x s) [min fromIndex (length s) ..< Suc (length s)] of
        None \<Rightarrow> - 1
      | Some j \<Rightarrow> int j)"

text \<open>
  \<^verbatim>\<open>s.lastIndexOf(x, fromIndex)\<close>: the greatest position not above \<^verbatim>\<open>fromIndex\<close> at which
  \<^verbatim>\<open>x\<close> occurs, or -1.
\<close>

definition lastIndexOf :: "string \<Rightarrow> string \<Rightarrow> nat \<Rightarrow> int" where
  "lastIndexOf s x fromIndex =
     (case find (occursAt x s) (rev [0 ..< Suc (min fromIndex (length s))]) of
        None \<Rightarrow> - 1
      | Some j \<Rightarrow> int j)"

text \<open>\<^verbatim>\<open>s.includes(x)\<close>\<close>

definition includesText :: "string \<Rightarrow> string \<Rightarrow> bool" where
  "includesText s x = (indexOf s x 0 \<noteq> - 1)"

text \<open>\<^verbatim>\<open>s.substring(a, b)\<close>: both ends are clamped to the length and swapped when out of order.\<close>

definition substring :: "string \<Rightarrow> nat \<Rightarrow> nat \<Rightarrow> string" where
  "substring s a b =
     (let a' = min a (length s); b' = min b (length s);
          lo = min a' b'; hi = max a' b'
      in take (hi - lo) (drop lo s))"

text \<open>
  \<^verbatim>\<open>s.trimEnd()\<close> removes the white space and line terminators at the end. Of the code
  units below 256 these are tab, line feed, vertical tab, form feed, carriage return,
  space and the no-break space.
\<close>

definition isWhiteSpace :: "char \<Rightarrow> bool" where
  "isWhiteSpace c =
     (c \<in> set [CHR 0x09, CHR 0x0A, CHR 0x0B, CHR 0x0C, CHR 0x0D, CHR 0x20, CHR 0xA0])"

definition trimEnd :: "string \<Rightarrow> string" where
  "trimEnd s = rev (dropWhile isWhiteSpace (rev s))"

text \<open>
  The text of a natural number in base 10, as a template literal prints it, and the
  digits of the bases up to 36.
\<close>

definition digitChar :: "nat \<Rightarrow> char" where
  "digitChar d = ''0123456789abcdefghijklmnopqrstuvwxyz'' ! (d mod 36)"

function decimalText :: "nat \<Rightarrow> string" where
  "decimalText n = (if n < 10 then [digitChar n] else decimalText (n div 10) @ [digitChar (n mod 10)])"
  by pat_completeness auto

termination
  by (relation "measure (\<lambda>n. n)") auto

declare decimalText.simps [simp del]

section \<open>The code-block handler \<^verbatim>\<open>handleEmbedCodeBlock\<close> (eventHandlers.ts)\<close>

type_synonym hworld = "(embed_info, template_data) world"

text \<open>
  Parameters: the constant \<^verbatim>\<open>SPINNER\<close> (module \<^verbatim>\<open>constants\<close>), the parsed fields of a block
  source (\<^verbatim>\<open>parseYaml\<close> applied to the source with the white space at the line ends
  removed; it is taken to deliver an object whose fields have the types of \<^verbatim>\<open>EmbedInfo\<close>),
  \<^verbatim>\<open>imageFileToBase64(vault, path)\<close> and \<^verbatim>\<open>getImageDimensions\<close> (module \<^verbatim>\<open>parsers\<close>): the value
  its promise settles to, \<open>Inl\<close> being a rejection; the Boolean tells whether it is given
  the cache, and what it does with the cache and with the attempt counters is not
  represented. \<^verbatim>\<open>probeSettlesFirst\<close> is a choice of the scheduler, see below.
\<close>

record handler_env =
  SPINNER :: string
  parseYaml :: "string \<Rightarrow> embed_info"
  imageFileToBase64 :: "string \<Rightarrow> thrown + string option"
  getImageDimensions :: "string \<Rightarrow> bool \<Rightarrow> thrown + image_dimensions option"
  probeSettlesFirst :: bool

text \<open>
  What the handler reads of its context \<^verbatim>\<open>ctx\<close>: \<^verbatim>\<open>ctx.sourcePath\<close> and
  \<^verbatim>\<open>ctx.getSectionInfo(el)?.lineStart\<close>, which is \<open>None\<close> when there is no section
  information.
\<close>

record block_context =
  ctx_sourcePath :: string
  ctx_lineStart :: "nat option"

text \<open>Truthiness of the values that occur.\<close>

definition truthyCached :: "cached \<Rightarrow> bool" where
  "truthyCached v = (case v of Str s \<Rightarrow> s \<noteq> [] | Dims d \<Rightarrow> True)"

text \<open>
  \<^verbatim>\<open>info.title === 'Fetching' && info.image === SPINNER &&
  info.description?.startsWith('Fetching ')\<close>
\<close>

definition isDummyEmbed :: "string \<Rightarrow> embed_info \<Rightarrow> bool" where
  "isDummyEmbed spinner info =
     (info_title info = Some ''Fetching''
      \<and> info_image info = Some spinner
      \<and> (case info_description info of None \<Rightarrow> False | Some d \<Rightarrow> prefix ''Fetching '' d))"

text \<open>
  A call of \<^verbatim>\<open>showNotice\<close> in the handler: the first argument is
  \<^verbatim>\<open>error instanceof Error ? error : prefix + String(error)\<close>, the others are recorded as
  they are passed.
\<close>

definition errorNotice ::
  "string \<Rightarrow> thrown \<Rightarrow> string option \<Rightarrow> notice_options \<Rightarrow> (embed_info, template_data) effect" where
  "errorNotice pre e secondArg opts =
     ShowNoticeCall (case e of ErrorObj m \<Rightarrow> OfError m | NonError v \<Rightarrow> OfText (pre @ v))
       secondArg opts"

text \<open>
  The conversion of a local image path: \<^verbatim>\<open>info.image && !info.image.startsWith('http')
  && !info.image.startsWith('data:')\<close>. The conversion is awaited. The first component is
  \<^verbatim>\<open>info\<close>, the second \<^verbatim>\<open>originalInfo\<close>.
\<close>

definition convertLocalImage ::
  "handler_env \<Rightarrow> settings \<Rightarrow> embed_info \<times> embed_info \<times> hworld
     \<Rightarrow> embed_info \<times> embed_info \<times> hworld" where
  "convertLocalImage H st x =
     (case x of (info, originalInfo, w) \<Rightarrow>
        (case info_image info of
           None \<Rightarrow> (info, originalInfo, w)
         | Some img \<Rightarrow>
             if img \<noteq> [] \<and> \<not> prefix ''http'' img \<and> \<not> prefix ''data:'' img then
               (let w1 = effect (ImageFileToBase64 img) w in
                case imageFileToBase64 H img of
                  Inl e \<Rightarrow>
                    (info, originalInfo,
                     effect (errorNotice ''Failed to convert local image to base64: '' e None
                        \<lparr>optDebug = debug st, optContext = ''Link Embed - Image'',
                         optType = Some ''error'', optDuration = Some 8000, optPrefix = None\<rparr>) w1)
                | Inr None \<Rightarrow> (info, originalInfo, w1)
                | Inr (Some base64Image) \<Rightarrow>
                    if base64Image \<noteq> []
                    then (info\<lparr>info_image := Some base64Image\<rparr>,
                          originalInfo\<lparr>info_image := Some base64Image\<rparr>, w1)
                    else (info, originalInfo, w1))
             else (info, originalInfo, w)))"

text \<open>
  The two enrichments run in the background. The handler calls \<^verbatim>\<open>getFavicon\<close> and
  \<^verbatim>\<open>getImageDimensions\<close>, whose first parts run at once, inside the call; it then renders
  with placeholder values, and renders again when all the promises have settled. A
  promise that is pending at the first rendering is kept with what its settling needs:
  the state of the call of \<^verbatim>\<open>getFavicon\<close>, or the image that is probed.
\<close>

datatype 'p pending = FaviconPending string "'p favicon_call" | AspectPending string

text \<open>
  \<^verbatim>\<open>if (!info.favicon && info.url && settings.enableFavicon) { ... }\<close>. \<^verbatim>\<open>getFavicon\<close> is an
  \<^verbatim>\<open>async\<close> function and \<^verbatim>\<open>cache.has\<close> does not throw, so the \<^verbatim>\<open>catch\<close> block around the
  set-up is never entered.
\<close>

definition faviconSetup ::
  "('p, 'doc, 'u) favicon_env \<Rightarrow> settings \<Rightarrow> string
     \<Rightarrow> embed_info \<times> embed_info \<times> 'p pending list \<times> hworld
     \<Rightarrow> embed_info \<times> embed_info \<times> 'p pending list \<times> hworld" where
  "faviconSetup E st spinner x =
     (case x of (info, originalInfo, promises, w) \<Rightarrow>
        (case info_url info of
           None \<Rightarrow> (info, originalInfo, promises, w)
         | Some u \<Rightarrow>
             if \<not> (case info_favicon info of None \<Rightarrow> False | Some f \<Rightarrow> truthyCached f)
                \<and> u \<noteq> [] \<and> enableFavicon st then
               (let info1 = info\<lparr>info_favicon := Some (Str spinner)\<rparr>;
                    w1 = (if useCache st then effect (CacheHas u) w else w) in
                case (if useCache st then cache w u else None) of
                  Some cachedFavicon \<Rightarrow>
                    (info1\<lparr>info_favicon := Some cachedFavicon\<rparr>,
                     originalInfo\<lparr>info_favicon := Some cachedFavicon\<rparr>,
                     promises, effect (CacheGet u) w1)
                | None \<Rightarrow>
                    (case getFaviconStart E u st w1 (debug st) of
                       (call, w2) \<Rightarrow> (info1, originalInfo, promises @ [FaviconPending u call], w2)))
             else (info, originalInfo, promises, w)))"

text \<open>
  \<^verbatim>\<open>if (settings.respectImageAspectRatio && !info.aspectRatio && info.image) { ... }\<close>. A
  cached value of any kind is read for its field \<^verbatim>\<open>aspectRatio\<close>, which a text does not
  have. \<^verbatim>\<open>getImageDimensions\<close> is taken to return its promise without throwing, so the
  \<^verbatim>\<open>catch\<close> block around the set-up is not entered.
\<close>

definition aspectSetup ::
  "settings \<Rightarrow> embed_info \<times> embed_info \<times> 'p pending list \<times> hworld
     \<Rightarrow> embed_info \<times> embed_info \<times> 'p pending list \<times> hworld" where
  "aspectSetup st x =
     (case x of (info, originalInfo, promises, w) \<Rightarrow>
        (case info_image info of
           None \<Rightarrow> (info, originalInfo, promises, w)
         | Some img \<Rightarrow>
             if respectImageAspectRatio st
                \<and> \<not> (case info_aspectRatio info of None \<Rightarrow> False | Some a \<Rightarrow> truthyNumber a)
                \<and> img \<noteq> [] then
               (let info1 = info\<lparr>info_aspectRatio := Some (Finite 100)\<rparr>;
                    w1 = (if useCache st then effect (CacheHas img) w else w) in
                case (if useCache st then cache w img else None) of
                  None \<Rightarrow>
                    (info1, originalInfo, promises @ [AspectPending img],
                     effect (GetImageDimensions img) w1)
                | Some (Dims d) \<Rightarrow>
                    (info1\<lparr>info_aspectRatio := Some (dimAspectRatio d)\<rparr>,
                     originalInfo\<lparr>info_aspectRatio := Some (dimAspectRatio d)\<rparr>,
                     promises, effect (CacheGet img) w1)
                | Some (Str s) \<Rightarrow>
                    if s \<noteq> []
                    then (info1\<lparr>info_aspectRatio := None\<rparr>,
                          originalInfo\<lparr>info_aspectRatio := None\<rparr>,
                          promises, effect (CacheGet img) w1)
                    else (info1, originalInfo, promises, effect (CacheGet img) w1))
             else (info, originalInfo, promises, w)))"

text \<open>
  The place named in the notice of a failed probe:
  \<^verbatim>\<open>ctx.sourcePath ? `${ctx.sourcePath}:${ctx.getSectionInfo(el)?.lineStart + 1 || 'unknown'}`
  : 'unknown location'\<close>.
\<close>

definition errorLocation :: "block_context \<Rightarrow> string" where
  "errorLocation ctx =
     (if ctx_sourcePath ctx \<noteq> [] then
        ctx_sourcePath ctx @ '':''
          @ (case ctx_lineStart ctx of None \<Rightarrow> ''unknown'' | Some l \<Rightarrow> decimalText (l + 1))
      else ''unknown location'')"

text \<open>
  The value the promise of a call of \<^verbatim>\<open>getFavicon\<close> settles to: at once when the first part
  of the call has settled it, by the rest of the call otherwise.
\<close>

definition getFaviconSettle ::
  "('p, 'doc, 'u) favicon_env \<Rightarrow> string \<Rightarrow> settings \<Rightarrow> bool \<Rightarrow> 'p favicon_call \<Rightarrow> ('i, 'r) world
     \<Rightarrow> (thrown + cached) \<times> ('i, 'r) world" where
  "getFaviconSettle E url st dbg call w =
     (case call of
        Settled v \<Rightarrow> (Inr v, w)
      | Waiting localParser \<Rightarrow> getFaviconFinish E url st dbg localParser w)"

text \<open>
  One pending promise settling, with its \<^verbatim>\<open>then\<close> and \<^verbatim>\<open>catch\<close> callbacks. What the callbacks
  assign to \<^verbatim>\<open>info\<close> comes after the first rendering and is read by nothing that is
  rendered; only \<^verbatim>\<open>originalInfo\<close> is kept.
\<close>

definition settle ::
  "handler_env \<Rightarrow> ('p, 'doc, 'u) favicon_env \<Rightarrow> block_context \<Rightarrow> settings \<Rightarrow> 'p pending
     \<Rightarrow> embed_info \<times> hworld \<Rightarrow> embed_info \<times> hworld" where
  "settle H E ctx st t x =
     (case x of (originalInfo, w) \<Rightarrow>
        (case t of
           FaviconPending u call \<Rightarrow>
             (case getFaviconSettle E u st (debug st) call w of
                (Inr fav, w1) \<Rightarrow>
                  (originalInfo\<lparr>info_favicon := Some fav\<rparr>,
                   if useCache st \<and> truthyCached fav then cacheSet u fav w1 else w1)
              | (Inl e, w1) \<Rightarrow>
                  (originalInfo,
                   effect (errorNotice ''Error fetching favicon for existing embed: '' e None
                      \<lparr>optDebug = debug st, optContext = ''Link Embed - Favicon'',
                       optType = Some ''error'', optDuration = None, optPrefix = None\<rparr>) w1))
         | AspectPending img \<Rightarrow>
             (case getImageDimensions H img (useCache st) of
                Inr None \<Rightarrow> (originalInfo, w)
              | Inr (Some d) \<Rightarrow>
                  (originalInfo\<lparr>info_aspectRatio := Some (dimAspectRatio d)\<rparr>,
                   if useCache st then cacheSet img (Dims d) w else w)
              | Inl e \<Rightarrow>
                  (originalInfo,
                   effect (errorNotice
                      (''Error calculating dynamic aspect ratio at '' @ errorLocation ctx @ '': '')
                      e (Some ''error'')
                      \<lparr>optDebug = debug st, optContext = ''Link Embed - Aspect Ratio'',
                       optType = None, optDuration = Some 7000, optPrefix = None\<rparr>) w))))"

fun settleAll ::
  "handler_env \<Rightarrow> ('p, 'doc, 'u) favicon_env \<Rightarrow> block_context \<Rightarrow> settings \<Rightarrow> 'p pending list
     \<Rightarrow> embed_info \<times> hworld \<Rightarrow> embed_info \<times> hworld" where
  "settleAll H E ctx st [] x = x"
| "settleAll H E ctx st (t # ts) x = settleAll H E ctx st ts (settle H E ctx st t x)"

text \<open>
  The order in which the pending promises settle is up to the network. A promise
  settles in one piece here, and the promises settle in the order in which they were
  made, or in the opposite order when \<^verbatim>\<open>probeSettlesFirst\<close> holds; there are at most two.
\<close>

definition settleOrder :: "handler_env \<Rightarrow> 'a list \<Rightarrow> 'a list" where
  "settleOrder H promises = (if probeSettlesFirst H then rev promises else promises)"

text \<open>A rendering followed by the three button handlers.\<close>

definition renderWithButtons :: "embed_info \<Rightarrow> settings \<Rightarrow> hworld \<Rightarrow> hworld" where
  "renderWithButtons info st w =
     effect (AddButtonHandlers info)
       (effect (RenderEmbed info (renderEmbed info (info_image info) (info_aspectRatio info) st)) w)"

text \<open>
  \<^verbatim>\<open>handleEmbedCodeBlock(source, el, ctx, settings, cache, vault, imageLoadAttempts)\<close>: the
  world after the call and after the promises it has made, the cache being part of the
  world. Nothing in the final rendering throws here, so the \<^verbatim>\<open>catch\<close> callback after
  \<^verbatim>\<open>Promise.all\<close> does not run.
\<close>

definition handleEmbedCodeBlock ::
  "handler_env \<Rightarrow> ('p, 'doc, 'u) favicon_env \<Rightarrow> string \<Rightarrow> block_context \<Rightarrow> settings \<Rightarrow> hworld
     \<Rightarrow> hworld" where
  "handleEmbedCodeBlock H E source ctx st w =
     (let info = parseYaml H source in
      if isDummyEmbed (SPINNER H) info
      then effect (RenderEmbed info (renderEmbed info (info_image info) (Some (Finite 1)) st)) w
      else
        (let originalInfo = info in
         case convertLocalImage H st (info, originalInfo, w) of
           (info1, originalInfo1, w1) \<Rightarrow>
             (case aspectSetup st (faviconSetup E st (SPINNER H) (info1, originalInfo1, [], w1)) of
                (info2, originalInfo2, promises, w2) \<Rightarrow>
                  (let w3 = renderWithButtons info2 st w2 in
                   if promises = [] then w3
                   else (case settleAll H E ctx st (settleOrder H promises) (originalInfo2, w3) of
                           (originalInfo3, w4) \<Rightarrow> renderWithButtons originalInfo3 st w4)))))"

text \<open>
  The recognition of a stub in the words of the specification, "a sentinel image value
  plus a description prefix", for comparison with \<^const>\<open>isDummyEmbed\<close>.
\<close>

definition looksLikeStub :: "string \<Rightarrow> embed_info \<Rightarrow> bool" where
  "looksLikeStub spinner info =
     (info_image info = Some spinner
      \<and> (case info_description info of None \<Rightarrow> False | Some d \<Rightarrow> prefix ''Fetching '' d))"

text \<open>Whether an effect is a rendering.\<close>

fun isRendering :: "('i, 'r) effect \<Rightarrow> bool" where
  "isRendering (RenderEmbed i r) = True"
| "isRendering _ = False"

text \<open>A concrete handler environment for evaluation: the source \<^verbatim>\<open>stub\<close> parses to the
  block that \<^verbatim>\<open>embedUrl\<close> inserts, any other source to the same block under another title.\<close>

definition demoSpinner :: string where
  "demoSpinner = ''data:image/svg+xml;base64,PHN2Zz4=''"

text \<open>The fields of the block that \<^verbatim>\<open>embedUrl\<close> inserts for \<^verbatim>\<open>https://example.com\<close>.\<close>

definition demoStub :: embed_info where
  "demoStub =
     \<lparr>info_title = Some ''Fetching'', info_image = Some demoSpinner,
      info_description = Some ''Fetching https://example.com'',
      info_url = Some ''https://example.com'', info_favicon = None, info_aspectRatio = None\<rparr>"

definition demoHandler :: handler_env where
  "demoHandler =
     \<lparr>SPINNER = demoSpinner,
      parseYaml = (\<lambda>source. if source = ''stub'' then demoStub
                            else demoStub\<lparr>info_title := Some ''Fetching rates''\<rparr>),
      imageFileToBase64 = (\<lambda>path. Inr None),
      getImageDimensions = (\<lambda>img withCache. Inl (NonError ''no image'')),
      probeSettlesFirst = False\<rparr>"

definition demoContext :: block_context where
  "demoContext = \<lparr>ctx_sourcePath = ''Notes/Links.md'', ctx_lineStart = Some 11\<rparr>"

text \<open>The handler's world with an empty cache and nothing done yet.\<close>

definition emptyHWorld :: hworld where
  "emptyHWorld = \<lparr>cache = Map.empty, effects = []\<rparr>"

section \<open>The replacement of the dummy block in \<^verbatim>\<open>embedUrl\<close> (embedUtils.ts)\<close>

text \<open>
  The editor is its text: \<^verbatim>\<open>editor.getValue()\<close> reads it, and
  \<^verbatim>\<open>editor.replaceRange(replacement, editor.offsetToPos(a), editor.offsetToPos(b))\<close> puts the
  replacement in the place of the units from offset \<^verbatim>\<open>a\<close> up to offset \<^verbatim>\<open>b\<close>.
\<close>

definition replaceRange :: "string \<Rightarrow> nat \<Rightarrow> nat \<Rightarrow> string \<Rightarrow> string" where
  "replaceRange replacement a b doc = take a doc @ replacement @ drop b doc"

definition openingFence :: string where
  "openingFence = ''```embed''"

definition closingFence :: string where
  "closingFence = ''```''"

text \<open>The text \<^verbatim>\<open>url: "${url}"\<close>.\<close>

definition urlLine :: "string \<Rightarrow> string" where
  "urlLine url = ''url: '' @ [CHR 0x22] @ url @ [CHR 0x22]"

definition cancelledText :: string where
  "cancelledText = ''Dummy preview has been deleted or modified. Replacing is cancelled.''"

text \<open>
  The block the search locates around the first occurrence of the placeholder id: the
  variable \<^verbatim>\<open>dummy\<close> of the source. It is meaningful when the three searches succeed.
\<close>

definition locatedBlock :: "string \<Rightarrow> string \<Rightarrow> string" where
  "locatedBlock fullText placeholderId =
     (let placeholderIndex = indexOf fullText placeholderId 0;
          embedStart = lastIndexOf fullText openingFence (nat placeholderIndex);
          embedEnd = indexOf fullText closingFence (nat placeholderIndex) + 3
      in substring fullText (nat embedStart) (nat embedEnd))"

text \<open>
  The statements from \<^verbatim>\<open>const fullText = editor.getValue()\<close> to the call of
  \<^verbatim>\<open>editor.replaceRange\<close>: the text of the document afterwards, and the texts of the
  notices created with \<^verbatim>\<open>new Notice\<close>.
\<close>

definition replaceDummy :: "string \<Rightarrow> string \<Rightarrow> string \<Rightarrow> string \<Rightarrow> string \<times> string list" where
  "replaceDummy fullText placeholderId url embedMarkdown =
     (let placeholderIndex = indexOf fullText placeholderId 0 in
      if placeholderIndex = - 1 then (fullText, [cancelledText])
      else
        (let embedStart = lastIndexOf fullText openingFence (nat placeholderIndex) in
         if embedStart = - 1 then (fullText, [cancelledText])
         else
           (let embedEnd0 = indexOf fullText closingFence (nat placeholderIndex) in
            if embedEnd0 = - 1 then (fullText, [cancelledText])
            else
              (let embedEnd = embedEnd0 + 3;
                   dummy = substring fullText (nat embedStart) (nat embedEnd);
                   hasUrl = includesText dummy (urlLine url)
               in if \<not> hasUrl then (fullText, [cancelledText])
                  else (replaceRange (trimEnd embedMarkdown) (nat embedStart) (nat embedEnd) fullText, [])))))"

text \<open>
  The positions at which \<^verbatim>\<open>x\<close> occurs in \<^verbatim>\<open>s\<close>, found in one pass over \<^verbatim>\<open>s\<close>; \<^verbatim>\<open>j\<close> is the
  position of the first unit of \<^verbatim>\<open>s\<close>. It computes \<^const>\<open>occurrences\<close> (see below) and
  serves the evaluation of the searches on concrete texts.
\<close>

fun scanAll :: "string \<Rightarrow> string \<Rightarrow> nat \<Rightarrow> nat list" where
  "scanAll x [] j = (if x = [] then [j] else [])"
| "scanAll x (c # cs) j =
     (if prefix x (c # cs) then j # scanAll x cs (j + 1) else scanAll x cs (j + 1))"

text \<open>A notice of the editor step: created with \<^verbatim>\<open>new Notice\<close>, or shown by \<^verbatim>\<open>showNotice\<close>.\<close>

datatype editor_notice = NewNotice string | Shown shown_notice

text \<open>
  The data a parser delivers, as \<^verbatim>\<open>generateEmbedMarkdown\<close> reads them. The title and the
  description are \<open>None\<close> when the value is not a text, so that it has no method
  \<^verbatim>\<open>replace\<close>; the other fields are handed on as they are.
\<close>

record page_data =
  data_title :: "string option"
  data_image :: "string option"
  data_description :: "string option"
  data_url :: "string option"
  data_aspectRatio :: "jsnum option"
  data_favicon :: "string option"

text \<open>
  The object \<^verbatim>\<open>templateContext\<close> given to the metadata template (its third field is the
  function \<^verbatim>\<open>formatDate\<close>, always the same), and the object given to the template
  \<^verbatim>\<open>MarkdownTemplate\<close>; \<^verbatim>\<open>metadata: metadata || false\<close> is \<open>None\<close> for \<^verbatim>\<open>false\<close>.
\<close>

record template_context =
  tc_parser :: string
  tc_date :: string

record escaped_data =
  esc_title :: string
  esc_image :: "string option"
  esc_description :: string
  esc_url :: "string option"
  esc_metadata :: "string option"
  esc_aspectRatio :: "jsnum option"
  esc_favicon :: "string option"

text \<open>
  Parameters: the year, the month (from 0) and the day of \<^verbatim>\<open>new Date()\<close>;
  \<^verbatim>\<open>Mustache.render\<close> applied to the user's metadata template and to the template
  \<^verbatim>\<open>MarkdownTemplate\<close> of the module \<^verbatim>\<open>constants\<close>, either of which may throw; the
  \<^verbatim>\<open>TypeError\<close> thrown when \<^verbatim>\<open>replace\<close> is called on a value that is no text; the constant
  \<^verbatim>\<open>SPINNER\<close>.
\<close>

record markdown_env =
  nowYear :: nat
  nowMonth :: nat
  nowDate :: nat
  renderMetadata :: "string \<Rightarrow> template_context \<Rightarrow> thrown + string"
  renderMarkdown :: "escaped_data \<Rightarrow> thrown + string"
  notAText :: thrown
  spinnerImage :: string

text \<open>\<^verbatim>\<open>s.replace(/"/g, '\\"')\<close>: a backslash before every double quote.\<close>

definition escapeQuotes :: "string \<Rightarrow> string" where
  "escapeQuotes s = concat (map (\<lambda>c. if c = CHR 0x22 then [CHR 0x5C, CHR 0x22] else [c]) s)"

text \<open>\<^verbatim>\<open>s.padStart(2, '0')\<close>\<close>

definition padStart2 :: "string \<Rightarrow> string" where
  "padStart2 s = replicate (2 - length s) (CHR ''0'') @ s"

text \<open>The date in the form \<^verbatim>\<open>YYYY-MM-DD\<close>.\<close>

definition dateText :: "markdown_env \<Rightarrow> string" where
  "dateText M =
     decimalText (nowYear M) @ ''-'' @ padStart2 (decimalText (nowMonth M + 1))
       @ ''-'' @ padStart2 (decimalText (nowDate M))"

text \<open>
  \<^verbatim>\<open>generateEmbedMarkdown(data, settings, parserName)\<close>: \<open>Inl\<close> is a value thrown by the
  rendering of the metadata template, by \<^verbatim>\<open>data.title.replace\<close> or
  \<^verbatim>\<open>data.description.replace\<close>, or by the rendering of the block.
\<close>

definition generateEmbedMarkdown ::
  "markdown_env \<Rightarrow> page_data \<Rightarrow> settings \<Rightarrow> string \<Rightarrow> thrown + string" where
  "generateEmbedMarkdown M data st parserName =
     (case (if useMetadataTemplate st
            then renderMetadata M (metadataTemplate st)
                   \<lparr>tc_parser = parserName, tc_date = dateText M\<rparr>
            else Inr []) of
        Inl e \<Rightarrow> Inl e
      | Inr metadata \<Rightarrow>
          (case data_title data of
             None \<Rightarrow> Inl (notAText M)
           | Some t \<Rightarrow>
               (case data_description data of
                  None \<Rightarrow> Inl (notAText M)
                | Some d \<Rightarrow>
                    (case renderMarkdown M
                            \<lparr>esc_title = escapeQuotes t,
                             esc_image = data_image data,
                             esc_description = escapeQuotes d,
                             esc_url = data_url data,
                             esc_metadata = (if metadata = [] then None else Some metadata),
                             esc_aspectRatio = data_aspectRatio data,
                             esc_favicon = (if enableFavicon st then data_favicon data
                                            else Some [])\<rparr> of
                       Inl e \<Rightarrow> Inl e
                     | Inr rendered \<Rightarrow> Inr (rendered @ [CHR 0x0A])))))"

text \<open>The notice of the \<^verbatim>\<open>catch\<close> block of \<^verbatim>\<open>embedUrl\<close>.\<close>

definition embedErrorNotice :: "settings \<Rightarrow> thrown \<Rightarrow> editor_notice" where
  "embedErrorNotice st e =
     Shown \<lparr>message = asNoticeMessage e, noticeDebug = debug st,
            noticeContext = ''Link Embed - Embed URL'', noticeType = ''error''\<rparr>"

text \<open>
  The \<^verbatim>\<open>try\<close> block of \<^verbatim>\<open>embedUrl\<close> with its \<^verbatim>\<open>catch\<close>: the orchestrator runs; when it
  resolves, the final markdown is generated and the dummy is replaced in the text the
  document has by then (\<^verbatim>\<open>fullText\<close>, read after the optional delay); when the
  orchestrator rejects or the generation throws, the error is shown and the document
  stays as it is. The result is the text of the document and the notices of this step;
  the notices of the orchestrator are in its own trace.
\<close>

definition embedUrlResolve ::
  "markdown_env \<Rightarrow> ('p, page_data) parser_env \<Rightarrow> string \<Rightarrow> string list
     \<Rightarrow> settings \<Rightarrow> string \<Rightarrow> string \<Rightarrow> string \<Rightarrow> string \<times> editor_notice list" where
  "embedUrlResolve M P url selectedParsers st locationInfo placeholderId fullText =
     (case fst (tryParsers P url selectedParsers st locationInfo) of
        Inl e \<Rightarrow> (fullText, [embedErrorNotice st e])
      | Inr (data, selectedParser) \<Rightarrow>
          (case generateEmbedMarkdown M data st selectedParser of
             Inl e \<Rightarrow> (fullText, [embedErrorNotice st e])
           | Inr embedMarkdown \<Rightarrow>
               (case replaceDummy fullText placeholderId url embedMarkdown of
                  (newText, notices) \<Rightarrow> (newText, map NewNotice notices))))"

text \<open>
  The placeholder id,
  \<^verbatim>\<open>`embed-${Date.now()}-${Math.random().toString(36).substring(2, 11)}`\<close>. \<^verbatim>\<open>now\<close> is the
  number \<^verbatim>\<open>Date.now()\<close> returns; \<^verbatim>\<open>digits36\<close> are the digits, in base 36, that follow \<^verbatim>\<open>0.\<close> in
  the text of the random number (none when the number is 0).
\<close>

definition placeholderId :: "nat \<Rightarrow> nat list \<Rightarrow> string" where
  "placeholderId now digits36 = ''embed-'' @ decimalText now @ ''-'' @ take 9 (map digitChar digits36)"

text \<open>
  \<^verbatim>\<open>embedUrl(editor, selected, selectedParsers, settings, inPlace)\<close> from the insertion of
  the dummy on. \<^verbatim>\<open>cursorLine\<close> is the line of the cursor at the call; \<^verbatim>\<open>before\<close> and \<^verbatim>\<open>after\<close>
  are the text of the document before and after the place at which
  \<^verbatim>\<open>editor.replaceSelection(dummyEmbed)\<close> writes (the selected URL removed and the cursor
  moved, when the source does so); \<^verbatim>\<open>edit\<close> is what the user and other embeds do to the
  document while the orchestrator runs. The rendering of the dummy is outside the
  \<^verbatim>\<open>try\<close> block, so a value it throws is thrown by \<^verbatim>\<open>embedUrl\<close>: the result \<open>Inl\<close>.
\<close>

definition embedUrl ::
  "markdown_env \<Rightarrow> ('p, page_data) parser_env \<Rightarrow> nat \<Rightarrow> nat list \<Rightarrow> string \<Rightarrow> string list
     \<Rightarrow> settings \<Rightarrow> nat \<Rightarrow> string \<Rightarrow> string \<Rightarrow> (string \<Rightarrow> string)
     \<Rightarrow> thrown + string \<times> editor_notice list" where
  "embedUrl M P now digits36 url selectedParsers st cursorLine before after edit =
     (let locationInfo = ''unknown:'' @ decimalText (cursorLine + 1);
          generatedId = placeholderId now digits36 in
      case renderMarkdown M
             \<lparr>esc_title = ''Fetching'',
              esc_image = Some (spinnerImage M),
              esc_description = ''Fetching '' @ url,
              esc_url = Some url,
              esc_metadata = Some (''placeholder-id: '' @ [CHR 0x22] @ generatedId @ [CHR 0x22]),
              esc_aspectRatio = None,
              esc_favicon = Some []\<rparr> of
        Inl e \<Rightarrow> Inl e
      | Inr rendered \<Rightarrow>
          (let dummyEmbed = rendered @ [CHR 0x0A] in
           Inr (embedUrlResolve M P url selectedParsers st locationInfo generatedId
                  (edit (before @ dummyEmbed @ after)))))"

text \<open>
  Modelled from the spec: the template \<^verbatim>\<open>MarkdownTemplate\<close> (module \<^verbatim>\<open>constants\<close>) is not
  among the sources. The specification gives the format of a block: a fenced region
  tagged \<^verbatim>\<open>embed\<close> whose body is key/value pairs \<^verbatim>\<open>title\<close>, \<^verbatim>\<open>image\<close>, \<^verbatim>\<open>description\<close>,
  \<^verbatim>\<open>url\<close>, and the metadata field, which carries the placeholder id of a dummy. These
  definitions write such blocks; they serve the evaluation of concrete documents only.
\<close>

definition keyValue :: "string \<Rightarrow> string \<Rightarrow> string" where
  "keyValue k v = k @ '': '' @ [CHR 0x22] @ v @ [CHR 0x22, CHR 0x0A]"

definition embedBlock :: "string \<Rightarrow> string \<Rightarrow> string \<Rightarrow> string \<Rightarrow> string \<Rightarrow> string" where
  "embedBlock t img d u metadata =
     openingFence @ [CHR 0x0A] @ keyValue ''title'' t @ keyValue ''image'' img
       @ keyValue ''description'' d @ keyValue ''url'' u @ metadata @ closingFence"

definition blockTemplate :: "escaped_data \<Rightarrow> string" where
  "blockTemplate d =
     embedBlock (esc_title d) (case esc_image d of None \<Rightarrow> [] | Some i \<Rightarrow> i)
       (esc_description d) (case esc_url d of None \<Rightarrow> [] | Some u \<Rightarrow> u)
       (case esc_metadata d of None \<Rightarrow> [] | Some m \<Rightarrow> m @ [CHR 0x0A])"

text \<open>The dummy that \<^verbatim>\<open>embedUrl\<close> inserts: title \<^verbatim>\<open>Fetching\<close>, the spinner, and the id.\<close>

definition dummyEmbed :: "string \<Rightarrow> string \<Rightarrow> string" where
  "dummyEmbed url generatedId =
     embedBlock ''Fetching'' ''spinner.svg'' (''Fetching '' @ url) url
       (keyValue ''placeholder-id'' generatedId)"

text \<open>
  A concrete environment for evaluation: blocks are written as above, the metadata
  template is rendered to the name of the parser, and every page has the title
  \<^verbatim>\<open>Example\<close>, except \<^verbatim>\<open>https://untitled.example\<close>, which has none.
\<close>

definition demoMarkdown :: markdown_env where
  "demoMarkdown =
     \<lparr>nowYear = 2024, nowMonth = 9, nowDate = 27,
      renderMetadata = (\<lambda>template c. Inr (''parser: '' @ tc_parser c)),
      renderMarkdown = (\<lambda>d. Inr (blockTemplate d)),
      notAText = ErrorObj ''Cannot read properties of undefined (reading replace)'',
      spinnerImage = ''spinner.svg''\<rparr>"

definition demoPage :: "string \<Rightarrow> page_data" where
  "demoPage u =
     \<lparr>data_title = (if u = ''https://untitled.example'' then None else Some ''Example''),
      data_image = Some ''https://example.com/a.png'',
      data_description = Some ''An example'',
      data_url = Some u,
      data_aspectRatio = None,
      data_favicon = None\<rparr>"

definition demoPages :: "(string, page_data) parser_env" where
  "demoPages =
     \<lparr>createParser = (\<lambda>n. Inr n),
      parse = (\<lambda>p dbg loc u. Inr (demoPage u))\<rparr>"

text \<open>The digits of the random number in the id below.\<close>

definition demoDigits :: "nat list" where
  "demoDigits = [20, 3, 19, 9, 33, 2, 22, 1, 26]"

text \<open>An id as the expression above makes it (see \<open>demoId_generated\<close> below).\<close>

definition demoId :: string where
  "demoId = ''embed-1730000000000-k3j9x2m1q''"

text \<open>The final block for a page of the environment above.\<close>

definition demoFinal :: "string \<Rightarrow> string" where
  "demoFinal u = embedBlock ''Example'' ''https://example.com/a.png'' ''An example'' u []"

text \<open>A note with the dummy for \<^verbatim>\<open>https://example.com\<close> between two lines of text.\<close>

definition demoDoc :: string where
  "demoDoc = ''# Notes'' @ [CHR 0x0A] @ dummyEmbed ''https://example.com'' demoId
       @ [CHR 0x0A] @ ''The end.''"

text \<open>Two URLs with backticks in the path, the first with the whole fence marker.\<close>

definition fenceUrl :: string where
  "fenceUrl = ''https://example.com/```embed''"

definition tickUrl :: string where
  "tickUrl = ''https://example.com/```x''"

text \<open>Three more states of the note: the dummy deleted, the dummy's URL edited, and the
  closing fence gone.\<close>

definition deletedDoc :: string where
  "deletedDoc = ''# Notes'' @ [CHR 0x0A] @ ''The end.''"

definition editedDoc :: string where
  "editedDoc = ''# Notes'' @ [CHR 0x0A] @ dummyEmbed ''https://example.org'' demoId
       @ [CHR 0x0A] @ ''The end.''"

definition unclosedDoc :: string where
  "unclosedDoc = openingFence @ [CHR 0x0A] @ keyValue ''url'' ''https://example.com''
       @ keyValue ''placeholder-id'' demoId"

section \<open>Evaluating the arithmetic of doubles\<close>

lemma bits_0: "bits 0 = 0"
  by (subst bits.simps) simp

lemma bits_pos: "0 < n \<Longrightarrow> bits n = bits (n div 2) + 1"
  by (subst bits.simps) simp

lemma floor_fraction: "\<lfloor>(numeral a :: rat) / numeral b\<rfloor> = numeral a div numeral b"
  using floor_divide_of_int_eq[of "numeral a" "numeral b", where ?'a = rat] by simp

lemma ceiling_fraction: "\<lceil>(numeral a :: rat) / numeral b\<rceil> = - ((- numeral a) div numeral b)"
proof -
  have "\<lfloor>- ((numeral a :: rat) / numeral b)\<rfloor> = (- numeral a) div numeral b"
    using floor_divide_of_int_eq[of "- numeral a" "numeral b", where ?'a = rat] by simp
  then show ?thesis by (simp add: ceiling_def)
qed

lemma floor_one_fraction: "\<lfloor>(1 :: rat) / numeral b\<rfloor> = 1 div numeral b"
  using floor_divide_of_int_eq[of 1 "numeral b", where ?'a = rat] by simp

lemma floor_minus_fraction:
  "\<lfloor>- ((numeral a :: rat) / numeral b)\<rfloor> = (- numeral a) div numeral b"
  using floor_divide_of_int_eq[of "- numeral a" "numeral b", where ?'a = rat] by simp

text \<open>The definitions and rules to unfold when a number is evaluated.\<close>

lemmas number_eval =
  truthyNumber_def quotientBy_def mathRound_def roundDouble_def
  nearestEven_def binaryExponent_def pow2_def bits_0 bits_pos floor_fraction ceiling_fraction
  floor_one_fraction floor_minus_fraction
  Let_def

text \<open>The decimal text of a number, digit by digit.\<close>

lemma decimalText_digit: "n < 10 \<Longrightarrow> decimalText n = [digitChar n]"
  by (subst decimalText.simps) simp

lemma decimalText_more:
  "10 \<le> n \<Longrightarrow> decimalText n = decimalText (n div 10) @ [digitChar (n mod 10)]"
  by (subst decimalText.simps) simp

section \<open>Properties of \<^verbatim>\<open>tryParsers\<close>\<close>

lemma trace_emit: "trace (emit ev s) = trace s @ [ev]"
  by (simp add: emit_def)

lemma createdParsers_append:
  "createdParsers (es @ fs) = createdParsers es @ createdParsers fs"
  by (induction es rule: createdParsers.induct) simp_all

lemma parseCalls_append:
  "parseCalls (es @ fs) = parseCalls es @ parseCalls fs"
  by (induction es rule: parseCalls.induct) simp_all

lemma failureNotices_append:
  "failureNotices (es @ fs) = failureNotices es @ failureNotices fs"
  by (induction es rule: failureNotices.induct) simp_all

lemma progressNotices_append:
  "progressNotices (es @ fs) = progressNotices es @ progressNotices fs"
  by (induction es rule: progressNotices.induct) simp_all

lemma attempt_outcome:
  "fst (attempt P st loc url n s) = parserOutcome P st loc url n"
  by (simp add: attempt_def parserOutcome_def Let_def split: sum.splits)

lemma tryLoop_success_first:
  assumes "parserOutcome P st loc url pk = Inr d"
  shows "tryLoop P st loc url (pk # post) s = tryLoop P st loc url [pk] s"
  using assms attempt_outcome[of P st loc url pk "newNotice (progressText pk) (hideNotice s)"]
  by (auto simp: Let_def split: prod.splits sum.splits)

lemma tryLoop_skip_post:
  assumes "\<forall>p \<in> set pre. isl (parserOutcome P st loc url p)"
    and "parserOutcome P st loc url pk = Inr d"
  shows "tryLoop P st loc url (pre @ pk # post) s = tryLoop P st loc url (pre @ [pk]) s"
  using assms
proof (induction pre arbitrary: s)
  case Nil
  then show ?case using tryLoop_success_first[of P st loc url pk d post s] by simp
next
  case (Cons p pre)
  then show ?case
    by (auto simp: Let_def split: prod.splits sum.splits)
qed

lemma openNotices_hide:
  "openNotices (es @ [NoticeHide i]) = filter (\<lambda>j. j \<noteq> i) (openNotices es)"
  by (induction es rule: openNotices.induct) auto

lemma openNotices_new:
  "openNotices (es @ [NoticeNew i txt]) = openNotices es @ [i]"
  by (induction es rule: openNotices.induct) auto

lemma openNotices_other:
  "(\<forall>i. ev \<noteq> NoticeHide i) \<Longrightarrow> (\<forall>i txt. ev \<noteq> NoticeNew i txt) \<Longrightarrow>
   openNotices (es @ [ev]) = openNotices es"
  by (induction es rule: openNotices.induct) (auto, cases ev, auto)

lemma hideNotice_open: "pending_ok s \<Longrightarrow> openNotices (trace (hideNotice s)) = []"
  by (cases "notice s")
     (auto simp: pending_ok_def hideNotice_def emit_def openNotices_hide filter_empty_conv)

lemma hideNotice_notice: "notice (hideNotice s) = notice s"
  by (simp add: hideNotice_def emit_def split: option.splits)

lemma pending_ok_hide: "pending_ok s \<Longrightarrow> pending_ok (hideNotice s)"
  by (simp add: pending_ok_def hideNotice_open)

lemma pending_ok_new: "pending_ok s \<Longrightarrow> pending_ok (newNotice txt (hideNotice s))"
  using hideNotice_open[of s]
  by (simp add: pending_ok_def newNotice_def emit_def openNotices_new)

lemma pending_ok_emit:
  "(\<forall>i. ev \<noteq> NoticeHide i) \<Longrightarrow> (\<forall>i txt. ev \<noteq> NoticeNew i txt) \<Longrightarrow>
   pending_ok s \<Longrightarrow> pending_ok (emit ev s)"
  by (simp add: pending_ok_def emit_def openNotices_other)

lemma pending_ok_attempt:
  "pending_ok s \<Longrightarrow> pending_ok (snd (attempt P st loc url n s))"
  by (auto simp: attempt_def Let_def pending_ok_emit split: sum.splits)

lemma tryLoop_open:
  "pending_ok s \<Longrightarrow> openNotices (trace (snd (tryLoop P st loc url names s))) = []"
proof (induction names arbitrary: s)
  case Nil
  then show ?case by (simp add: hideNotice_open)
next
  case (Cons n names)
  let ?s1 = "newNotice (progressText n) (hideNotice s)"
  obtain r s2 where a: "attempt P st loc url n ?s1 = (r, s2)" by (cases "attempt P st loc url n ?s1")
  have ok2: "pending_ok s2"
    using pending_ok_attempt[OF pending_ok_new[OF Cons.prems], of P st loc url n "progressText n"] a
    by simp
  show ?case
  proof (cases r)
    case (Inr d)
    then show ?thesis using a ok2 by (simp add: Let_def hideNotice_open)
  next
    case (Inl e)
    let ?s3 = "emit (FailureNotice (parserFailureNotice st e)) s2"
    have ok3: "pending_ok ?s3" using ok2 by (simp add: pending_ok_emit)
    show ?thesis
      using a Inl ok3 Cons.IH[OF ok3] by (simp add: Let_def hideNotice_open)
  qed
qed

lemma tryLoop_pending:
  "pending_ok s \<Longrightarrow> pending_ok (snd (tryLoop P st loc url names s))"
proof (induction names arbitrary: s)
  case Nil
  then show ?case by (simp add: pending_ok_hide)
next
  case (Cons n names)
  let ?s1 = "newNotice (progressText n) (hideNotice s)"
  obtain r s2 where a: "attempt P st loc url n ?s1 = (r, s2)" by (cases "attempt P st loc url n ?s1")
  have ok2: "pending_ok s2"
    using pending_ok_attempt[OF pending_ok_new[OF Cons.prems], of P st loc url n "progressText n"] a
    by simp
  show ?case
  proof (cases r)
    case (Inr d)
    then show ?thesis using a ok2 by (simp add: Let_def pending_ok_hide)
  next
    case (Inl e)
    let ?s3 = "emit (FailureNotice (parserFailureNotice st e)) s2"
    have ok3: "pending_ok ?s3" using ok2 by (simp add: pending_ok_emit)
    show ?thesis
      using a Inl ok3 Cons.IH[OF ok3] by (simp add: Let_def pending_ok_hide)
  qed
qed

lemma pending_ok_init: "pending_ok tp_init"
  by (simp add: pending_ok_def tp_init_def)

lemma tryParsers_all_retracted:
  "openNotices (trace (snd (tryParsers P url names st loc))) = []"
  using tryLoop_open[OF pending_ok_init, of P st loc url names]
        tryLoop_pending[OF pending_ok_init, of P st loc url names]
  by (auto simp: tryParsers_def hideNotice_open split: prod.splits sum.splits)

lemma projections_hideNotice:
  "createdParsers (trace (hideNotice s)) = createdParsers (trace s)"
  "parseCalls (trace (hideNotice s)) = parseCalls (trace s)"
  "failureNotices (trace (hideNotice s)) = failureNotices (trace s)"
  "progressNotices (trace (hideNotice s)) = progressNotices (trace s)"
  by (simp_all add: hideNotice_def emit_def createdParsers_append parseCalls_append
        failureNotices_append progressNotices_append split: option.splits)

lemma projections_newNotice:
  "createdParsers (trace (newNotice txt s)) = createdParsers (trace s)"
  "parseCalls (trace (newNotice txt s)) = parseCalls (trace s)"
  "failureNotices (trace (newNotice txt s)) = failureNotices (trace s)"
  "progressNotices (trace (newNotice txt s)) = progressNotices (trace s) @ [txt]"
  by (simp_all add: newNotice_def emit_def createdParsers_append parseCalls_append
        failureNotices_append progressNotices_append)

lemma projections_failure:
  "createdParsers (trace (emit (FailureNotice n) s)) = createdParsers (trace s)"
  "parseCalls (trace (emit (FailureNotice n) s)) = parseCalls (trace s)"
  "failureNotices (trace (emit (FailureNotice n) s)) = failureNotices (trace s) @ [n]"
  "progressNotices (trace (emit (FailureNotice n) s)) = progressNotices (trace s)"
  by (simp_all add: emit_def createdParsers_append parseCalls_append
        failureNotices_append progressNotices_append)

lemma projections_attempt:
  "createdParsers (trace (snd (attempt P st loc url n s))) = createdParsers (trace s) @ [n]"
  "parseCalls (trace (snd (attempt P st loc url n s))) =
     parseCalls (trace s) @ (if isl (createParser P n) then [] else [(n, url)])"
  "failureNotices (trace (snd (attempt P st loc url n s))) = failureNotices (trace s)"
  "progressNotices (trace (snd (attempt P st loc url n s))) = progressNotices (trace s)"
  by (simp_all add: attempt_def Let_def emit_def createdParsers_append parseCalls_append
        failureNotices_append progressNotices_append split: sum.splits)

lemma tryLoop_until_success:
  assumes "\<forall>p \<in> set pre. isl (parserOutcome P st loc url p)"
    and "parserOutcome P st loc url pk = Inr d"
  shows "fst (tryLoop P st loc url (pre @ [pk]) s) = Inr (d, pk)
       \<and> createdParsers (trace (snd (tryLoop P st loc url (pre @ [pk]) s)))
           = createdParsers (trace s) @ pre @ [pk]
       \<and> parseCalls (trace (snd (tryLoop P st loc url (pre @ [pk]) s)))
           = parseCalls (trace s) @ parsedBy P url (pre @ [pk])
       \<and> failureNotices (trace (snd (tryLoop P st loc url (pre @ [pk]) s)))
           = failureNotices (trace s)
               @ map (\<lambda>p. parserFailureNotice st (projl (parserOutcome P st loc url p))) pre
       \<and> progressNotices (trace (snd (tryLoop P st loc url (pre @ [pk]) s)))
           = progressNotices (trace s) @ map progressText (pre @ [pk])"
  using assms
proof (induction pre arbitrary: s)
  case Nil
  let ?s1 = "newNotice (progressText pk) (hideNotice s)"
  obtain r s2 where a: "attempt P st loc url pk ?s1 = (r, s2)"
    by (cases "attempt P st loc url pk ?s1")
  have r: "r = Inr d" using attempt_outcome[of P st loc url pk ?s1] a Nil.prems by simp
  have s2: "s2 = snd (attempt P st loc url pk ?s1)" using a by simp
  have step: "tryLoop P st loc url ([] @ [pk]) s = (Inr (d, pk), hideNotice s2)"
    using a r by (simp add: Let_def)
  show ?case
    unfolding step
    by (simp add: projections_hideNotice s2 projections_attempt projections_newNotice
          parsedBy_def)
next
  case (Cons p pre)
  let ?s1 = "newNotice (progressText p) (hideNotice s)"
  obtain r s2 where a: "attempt P st loc url p ?s1 = (r, s2)"
    by (cases "attempt P st loc url p ?s1")
  have "isl (parserOutcome P st loc url p)" using Cons.prems by simp
  then obtain e where e: "parserOutcome P st loc url p = Inl e" by (cases "parserOutcome P st loc url p") auto
  have r: "r = Inl e" using attempt_outcome[of P st loc url p ?s1] a e by simp
  have s2: "s2 = snd (attempt P st loc url p ?s1)" using a by simp
  let ?s3 = "emit (FailureNotice (parserFailureNotice st e)) s2"
  have step: "tryLoop P st loc url ((p # pre) @ [pk]) s = tryLoop P st loc url (pre @ [pk]) ?s3"
    using a r by (simp add: Let_def)
  have ih: "\<forall>p\<in>set pre. isl (parserOutcome P st loc url p)" using Cons.prems by simp
  show ?case
    unfolding step
    using Cons.IH[OF ih Cons.prems(2), of ?s3] e
    by (simp add: projections_failure s2 projections_attempt projections_newNotice
          projections_hideNotice parsedBy_def)
qed

lemma tryLoop_all_fail:
  assumes "\<forall>p \<in> set names. isl (parserOutcome P st loc url p)" and "names \<noteq> []"
  shows "fst (tryLoop P st loc url names s) = Inl (projl (parserOutcome P st loc url (last names)))
       \<and> createdParsers (trace (snd (tryLoop P st loc url names s)))
           = createdParsers (trace s) @ names
       \<and> failureNotices (trace (snd (tryLoop P st loc url names s)))
           = failureNotices (trace s)
               @ map (\<lambda>p. parserFailureNotice st (projl (parserOutcome P st loc url p))) names
       \<and> progressNotices (trace (snd (tryLoop P st loc url names s)))
           = progressNotices (trace s) @ map progressText names"
  using assms
proof (induction names arbitrary: s)
  case Nil
  then show ?case by simp
next
  case (Cons p names)
  let ?s1 = "newNotice (progressText p) (hideNotice s)"
  obtain r s2 where a: "attempt P st loc url p ?s1 = (r, s2)"
    by (cases "attempt P st loc url p ?s1")
  have "isl (parserOutcome P st loc url p)" using Cons.prems by simp
  then obtain e where e: "parserOutcome P st loc url p = Inl e" by (cases "parserOutcome P st loc url p") auto
  have r: "r = Inl e" using attempt_outcome[of P st loc url p ?s1] a e by simp
  have s2: "s2 = snd (attempt P st loc url p ?s1)" using a by simp
  let ?s3 = "emit (FailureNotice (parserFailureNotice st e)) s2"
  show ?case
  proof (cases "names = []")
    case True
    have step: "tryLoop P st loc url (p # names) s = (Inl e, hideNotice ?s3)"
      using a r True by (simp add: Let_def)
    show ?thesis
      unfolding step
      using e True
      by (simp add: projections_failure s2 projections_attempt projections_newNotice
          projections_hideNotice)
  next
    case False
    have step: "tryLoop P st loc url (p # names) s = tryLoop P st loc url names ?s3"
      using a r False by (simp add: Let_def)
    have ih: "\<forall>p\<in>set names. isl (parserOutcome P st loc url p)" using Cons.prems by simp
    show ?thesis
      unfolding step
      using Cons.IH[OF ih False, of ?s3] e False
      by (simp add: projections_failure s2 projections_attempt projections_newNotice
          projections_hideNotice)
  qed
qed


subsection \<open>The empty parser list\<close>

text \<open>
  Claim C10. For the empty parser list \<^verbatim>\<open>tryParsers\<close> rejects with the generic error
  \<^verbatim>\<open>All parsers failed\<close>; the trace of the run is empty: no parser is created or asked
  to parse, no failure notice is shown and no progress notice is displayed.
\<close>

theorem tryParsers_empty_list:
  "tryParsers P url [] st locationInfo =
     (Inl (ErrorObj ''All parsers failed''), \<lparr>notice = None, nextNotice = 0, trace = []\<rparr>)"
  by (simp add: tryParsers_def tp_init_def hideNotice_def allParsersFailedError_def)

subsection \<open>The first success ends the run\<close>

text \<open>
  Claim C1. Let the parser list be \<^verbatim>\<open>pre @ pk # post\<close>, where every parser of \<^verbatim>\<open>pre\<close> fails
  on the URL and \<^verbatim>\<open>pk\<close> succeeds with \<^verbatim>\<open>d\<close>. Then \<^verbatim>\<open>tryParsers\<close> returns \<^verbatim>\<open>d\<close> together
  with \<^verbatim>\<open>pk\<close>; the parsers created are exactly those of \<^verbatim>\<open>pre\<close> followed by \<^verbatim>\<open>pk\<close>, in
  this order, and only they are asked to parse; result and trace are those of the run
  on \<^verbatim>\<open>pre @ [pk]\<close>, so nothing of \<^verbatim>\<open>post\<close> is created or invoked.
\<close>

theorem tryParsers_first_success:
  assumes "\<forall>p \<in> set pre. isl (parserOutcome P st loc url p)"
    and "parserOutcome P st loc url pk = Inr d"
  shows "fst (tryParsers P url (pre @ pk # post) st loc) = Inr (d, pk)
       \<and> createdParsers (trace (snd (tryParsers P url (pre @ pk # post) st loc))) = pre @ [pk]
       \<and> parseCalls (trace (snd (tryParsers P url (pre @ pk # post) st loc)))
           = parsedBy P url (pre @ [pk])
       \<and> tryParsers P url (pre @ pk # post) st loc = tryParsers P url (pre @ [pk]) st loc"
proof -
  have same: "tryLoop P st loc url (pre @ pk # post) tp_init = tryLoop P st loc url (pre @ [pk]) tp_init"
    by (rule tryLoop_skip_post[OF assms])
  obtain r s where rs: "tryLoop P st loc url (pre @ [pk]) tp_init = (r, s)"
    by (cases "tryLoop P st loc url (pre @ [pk]) tp_init")
  have facts: "r = Inr (d, pk)"
      "createdParsers (trace s) = pre @ [pk]"
      "parseCalls (trace s) = parsedBy P url (pre @ [pk])"
    using tryLoop_until_success[OF assms, of tp_init] rs by (simp_all add: tp_init_def)
  show ?thesis
    using facts rs same by (simp add: tryParsers_def)
qed

text \<open>The theorem at a list of three parsers, the first of which fails.\<close>

theorem tryParsers_first_success_witness:
  "isl (parserOutcome demoParsers demoSettings ''unknown:1'' ''https://example.com'' ''local'')
   \<and> parserOutcome demoParsers demoSettings ''unknown:1'' ''https://example.com'' ''jsonlink''
       = Inr ''Example via jsonlink''
   \<and> fst (tryParsers demoParsers ''https://example.com'' [''local'', ''jsonlink'', ''microlink'']
           demoSettings ''unknown:1'') = Inr (''Example via jsonlink'', ''jsonlink'')
   \<and> createdParsers (trace (snd (tryParsers demoParsers ''https://example.com''
           [''local'', ''jsonlink'', ''microlink''] demoSettings ''unknown:1'')))
       = [''local'', ''jsonlink'']"
proof -
  have h1: "\<forall>p \<in> set [''local'']. isl (parserOutcome demoParsers demoSettings ''unknown:1'' ''https://example.com'' p)"
    by (simp add: parserOutcome_def demoParsers_def)
  have h2: "parserOutcome demoParsers demoSettings ''unknown:1'' ''https://example.com'' ''jsonlink''
       = Inr ''Example via jsonlink''"
    by (simp add: parserOutcome_def demoParsers_def)
  note run = tryParsers_first_success[OF h1 h2, of "[''microlink'']"]
  show ?thesis
    using run[THEN conjunct1] run[THEN conjunct2, THEN conjunct1] h1 h2 by simp
qed

subsection \<open>Every parser fails\<close>

text \<open>
  Claim C2, as amended. For a non-empty parser list on which every parser fails,
  \<^verbatim>\<open>tryParsers\<close> rejects with the error of the last attempted parser itself, thrown again
  unchanged. Every parser of the list was created, exactly one failure notice was shown
  for each of them, in order, one progress notice was displayed for each, and at the end
  of every run (of any list, successful or not) no progress notice is left displayed.
\<close>

theorem tryParsers_all_fail:
  assumes "names \<noteq> []"
    and "\<forall>p \<in> set names. isl (parserOutcome P st loc url p)"
  shows "fst (tryParsers P url names st loc)
           = Inl (projl (parserOutcome P st loc url (last names)))
       \<and> createdParsers (trace (snd (tryParsers P url names st loc))) = names
       \<and> failureNotices (trace (snd (tryParsers P url names st loc)))
           = map (\<lambda>p. parserFailureNotice st (projl (parserOutcome P st loc url p))) names
       \<and> progressNotices (trace (snd (tryParsers P url names st loc))) = map progressText names
       \<and> (\<forall>ps. openNotices (trace (snd (tryParsers P url ps st loc))) = [])"
proof -
  obtain r s where rs: "tryLoop P st loc url names tp_init = (r, s)"
    by (cases "tryLoop P st loc url names tp_init")
  have facts: "r = Inl (projl (parserOutcome P st loc url (last names)))"
      "createdParsers (trace s) = names"
      "failureNotices (trace s)
         = map (\<lambda>p. parserFailureNotice st (projl (parserOutcome P st loc url p))) names"
      "progressNotices (trace s) = map progressText names"
    using tryLoop_all_fail[OF assms(2) assms(1), of tp_init] rs by (simp_all add: tp_init_def)
  show ?thesis
    using facts rs tryParsers_all_retracted[of P url _ st loc]
    by (simp add: tryParsers_def projections_hideNotice)
qed

text \<open>The theorem at a list of two failing parsers: one cannot be created, one fails to parse.\<close>

theorem tryParsers_all_fail_witness:
  "[''broken'', ''local''] \<noteq> []
   \<and> isl (parserOutcome demoParsers demoSettings ''unknown:1'' ''https://example.com'' ''broken'')
   \<and> isl (parserOutcome demoParsers demoSettings ''unknown:1'' ''https://example.com'' ''local'')
   \<and> fst (tryParsers demoParsers ''https://example.com'' [''broken'', ''local'']
           demoSettings ''unknown:1'') = Inl (ErrorObj ''timeout'')
   \<and> map message (failureNotices (trace (snd (tryParsers demoParsers ''https://example.com''
           [''broken'', ''local''] demoSettings ''unknown:1''))))
       = [OfText ''no such parser'', OfError ''timeout'']"
proof -
  have h1: "[''broken'', ''local''] \<noteq> []" by simp
  have h2: "\<forall>p \<in> set [''broken'', ''local''].
      isl (parserOutcome demoParsers demoSettings ''unknown:1'' ''https://example.com'' p)"
    by (simp add: parserOutcome_def demoParsers_def)
  show ?thesis
    using tryParsers_all_fail[OF h1 h2] h2
    by (simp add: parserOutcome_def demoParsers_def parserFailureNotice_def asNoticeMessage_def)
qed

text \<open>
  Claim C2 as stated asks for a separate all-parsers-failed error that wraps the last
  error. On a single failing parser the rejection is the parser's own error, not the
  error the orchestrator creates.
\<close>

theorem tryParsers_rethrows_counterexample:
  "parserOutcome demoParsers demoSettings ''unknown:1'' ''https://example.com'' ''local''
     = Inl (ErrorObj ''timeout'')
   \<and> fst (tryParsers demoParsers ''https://example.com'' [''local''] demoSettings ''unknown:1'')
     = Inl (ErrorObj ''timeout'')
   \<and> fst (tryParsers demoParsers ''https://example.com'' [''local''] demoSettings ''unknown:1'')
     \<noteq> Inl allParsersFailedError"
  by (simp add: tryParsers_def tp_init_def hideNotice_def newNotice_def emit_def attempt_def
        parserOutcome_def demoParsers_def allParsersFailedError_def Let_def)

section \<open>Properties of \<^verbatim>\<open>getFavicon\<close>\<close>

lemma shownNotices_append: "shownNotices (es @ fs) = shownNotices es @ shownNotices fs"
  by (induction es rule: shownNotices.induct) simp_all

lemma fetchHtml_world:
  "\<exists>new. snd (fetchHtml E lp dbg url w) = w\<lparr>effects := effects w @ new\<rparr>
     \<and> shownNotices new = [] \<and> filter isCacheAccess new = []"
  by (auto simp: fetchHtml_def Let_def effect_def split: sum.splits option.splits)

lemma fetchHtml_result:
  "fst (fetchHtml E lp dbg url w) = fst (fetchHtml E lp dbg url w')"
  by (auto simp: fetchHtml_def Let_def effect_def split: sum.splits option.splits)

lemma body_effects:
  "\<exists>new. effects (snd (getFaviconBody E url st dbg w)) = effects w @ new
     \<and> shownNotices new = [] \<and> (\<not> useCache st \<longrightarrow> filter isCacheAccess new = [])"
proof -
  show ?thesis
    unfolding getFaviconBody_def Let_def
    apply (cases "createLocalParser E")
     apply (simp add: effect_def)
    subgoal for lp
      using fetchHtml_world[of E lp dbg url "effect CreateLocalParser w"]
      apply (cases "fetchHtml E lp dbg url (effect CreateLocalParser w)")
      apply (auto simp: effect_def cacheSet_def shownNotices_append split: sum.splits option.splits)
      done
    done
qed

lemma fst_fetchHtml: "fst (fetchHtml E lp dbg url w) = fetchedHtml E lp dbg url"
  by (auto simp: fetchHtml_def fetchedHtml_def Let_def split: sum.splits option.splits)

lemma body_result_indep:
  "fst (getFaviconBody E url st dbg w) = fst (getFaviconBody E url st dbg w')"
  unfolding getFaviconBody_def Let_def
  apply (cases "createLocalParser E")
   apply simp
  subgoal for lp
    using fst_fetchHtml[of E lp dbg url "effect CreateLocalParser w"]
          fst_fetchHtml[of E lp dbg url "effect CreateLocalParser w'"]
    apply (cases "fetchHtml E lp dbg url (effect CreateLocalParser w)";
           cases "fetchHtml E lp dbg url (effect CreateLocalParser w')")
    apply (auto split: sum.splits option.splits)
    done
  done

lemma fetchHtml_cache: "cache (snd (fetchHtml E lp dbg url w)) = cache w"
  by (auto simp: fetchHtml_def Let_def effect_def split: sum.splits option.splits)

lemma body_cache:
  "cache (snd (getFaviconBody E url st dbg w)) = cache w
   \<or> (\<exists>f. f \<noteq> [] \<and> useCache st \<and> fst (getFaviconBody E url st dbg w) = Inr (Str f)
          \<and> cache (snd (getFaviconBody E url st dbg w)) = (cache w)(url \<mapsto> Str f))"
  unfolding getFaviconBody_def Let_def
  apply (cases "createLocalParser E")
   apply (simp add: effect_def)
  subgoal for lp
    using fetchHtml_cache[of E lp dbg url "effect CreateLocalParser w"]
    apply (cases "fetchHtml E lp dbg url (effect CreateLocalParser w)")
    apply (auto simp: effect_def cacheSet_def split: sum.splits option.splits)
    done
  done

lemma body_extraction_null:
  "faviconExtraction E url dbg = Some (Inr None) \<Longrightarrow>
   fst (getFaviconBody E url st dbg w) = Inr (Str [])"
  unfolding getFaviconBody_def Let_def faviconExtraction_def
  apply (cases "createLocalParser E")
   apply simp
  subgoal for lp
    using fst_fetchHtml[of E lp dbg url "effect CreateLocalParser w"]
    apply (cases "fetchHtml E lp dbg url (effect CreateLocalParser w)")
    apply (auto split: sum.splits option.splits if_splits)
    done
  done

lemma body_no_html:
  "noHtml E url dbg \<Longrightarrow> fst (getFaviconBody E url st dbg w) = Inr (Str [])"
  unfolding getFaviconBody_def Let_def noHtml_def
  apply (cases "createLocalParser E")
   apply simp
  subgoal for lp
    using fst_fetchHtml[of E lp dbg url "effect CreateLocalParser w"]
    apply (cases "fetchHtml E lp dbg url (effect CreateLocalParser w)")
    apply (auto split: sum.splits option.splits if_splits)
    done
  done

lemma guarded_resolves: "\<exists>v. fst (getFaviconGuarded E url st dbg w) = Inr v"
  by (auto simp: getFaviconGuarded_def split: prod.splits sum.splits)

lemma guarded_thrown:
  assumes "fst (getFaviconBody E url st dbg w) = Inl e"
  shows "fst (getFaviconGuarded E url st dbg w) = Inr (Str [])
       \<and> shownNotices (newEffects w (snd (getFaviconGuarded E url st dbg w))) = [faviconErrorNotice dbg e]
       \<and> cache (snd (getFaviconGuarded E url st dbg w)) = cache w"
proof -
  obtain w' where b: "getFaviconBody E url st dbg w = (Inl e, w')"
    using assms by (cases "getFaviconBody E url st dbg w") auto
  obtain new where n: "effects w' = effects w @ new" "shownNotices new = []"
    using body_effects[of E url st dbg w] b by auto
  have c: "cache w' = cache w" using body_cache[of E url st dbg w] b by auto
  show ?thesis using b n c
    by (simp add: getFaviconGuarded_def newEffects_def effect_def shownNotices_append)
qed

lemma guarded_quiet:
  assumes "fst (getFaviconBody E url st dbg w) = Inr (Str [])"
  shows "fst (getFaviconGuarded E url st dbg w) = Inr (Str [])
       \<and> shownNotices (newEffects w (snd (getFaviconGuarded E url st dbg w))) = []
       \<and> cache (snd (getFaviconGuarded E url st dbg w)) = cache w"
proof -
  obtain w' where b: "getFaviconBody E url st dbg w = (Inr (Str []), w')"
    using assms by (cases "getFaviconBody E url st dbg w") auto
  obtain new where n: "effects w' = effects w @ new" "shownNotices new = []"
    using body_effects[of E url st dbg w] b by auto
  have c: "cache w' = cache w" using body_cache[of E url st dbg w] b by auto
  show ?thesis using b n c
    by (simp add: getFaviconGuarded_def newEffects_def)
qed

lemma newEffects_after_has:
  "shownNotices (newEffects w w') = shownNotices (newEffects (effect (CacheHas url) w) w')"
  if "\<exists>new. effects w' = effects (effect (CacheHas url) w) @ new"
  using that by (auto simp: newEffects_def effect_def)

lemma guarded_effects:
  "\<exists>new. effects (snd (getFaviconGuarded E url st dbg w)) = effects w @ new
     \<and> (\<not> useCache st \<longrightarrow> filter isCacheAccess new = [])"
proof -
  obtain r w' where b: "getFaviconBody E url st dbg w = (r, w')"
    by (cases "getFaviconBody E url st dbg w")
  obtain new where n: "effects w' = effects w @ new" "\<not> useCache st \<longrightarrow> filter isCacheAccess new = []"
    using body_effects[of E url st dbg w] b by auto
  show ?thesis using b n
    by (cases r) (auto simp: getFaviconGuarded_def effect_def)
qed

lemma getFavicon_miss:
  "\<not> cacheHit st w url \<Longrightarrow>
   getFavicon E url st w dbg
     = getFaviconGuarded E url st dbg (if useCache st then effect (CacheHas url) w else w)"
  by (auto simp: getFavicon_def cacheHit_def Let_def)

lemma notices_after_entry:
  "shownNotices (newEffects w (snd (getFaviconGuarded E url st dbg (effect (CacheHas url) w))))
   = shownNotices (newEffects (effect (CacheHas url) w)
        (snd (getFaviconGuarded E url st dbg (effect (CacheHas url) w))))"
proof -
  obtain new where "effects (snd (getFaviconGuarded E url st dbg (effect (CacheHas url) w)))
      = effects (effect (CacheHas url) w) @ new"
    using guarded_effects[of E url st dbg "effect (CacheHas url) w"] by auto
  then show ?thesis by (simp add: newEffects_def effect_def)
qed

lemma cache_entry: "cache (effect ev w) = cache w"
  by (simp add: effect_def)

lemma body_thrown:
  assumes "createLocalParser E = Inl e
      \<or> (\<exists>lp. createLocalParser E = Inr lp \<and> getHtmlByElectron E lp dbg url = Inl e)
      \<or> (\<exists>lp. createLocalParser E = Inr lp
            \<and> (getHtmlByElectron E lp dbg url = Inr None
                \<or> getHtmlByElectron E lp dbg url = Inr (Some []))
            \<and> getHtmlByRequest E lp dbg url = Inl e)
      \<or> (\<exists>lp html. createLocalParser E = Inr lp \<and> fetchedHtml E lp dbg url = Inr (Some html)
            \<and> html \<noteq> [] \<and> newURL E url = Inl e)
      \<or> (\<exists>lp html u. createLocalParser E = Inr lp \<and> fetchedHtml E lp dbg url = Inr (Some html)
            \<and> html \<noteq> [] \<and> newURL E url = Inr u
            \<and> parserGetFavicon E lp dbg (parseFromString E html) u = Inl e)"
  shows "fst (getFaviconBody E url st dbg w) = Inl e"
proof (cases "createLocalParser E")
  case (Inl e')
  then show ?thesis using assms by (auto simp: getFaviconBody_def Let_def)
next
  case (Inr lp)
  obtain r w2 where f: "fetchHtml E lp dbg url (effect CreateLocalParser w) = (r, w2)"
    by (cases "fetchHtml E lp dbg url (effect CreateLocalParser w)")
  have r: "r = fetchedHtml E lp dbg url"
    using fst_fetchHtml[of E lp dbg url "effect CreateLocalParser w"] f by simp
  from assms Inr consider
      (fetch) "fetchedHtml E lp dbg url = Inl e"
    | (link) html where "fetchedHtml E lp dbg url = Inr (Some html)" and "html \<noteq> []"
        and "newURL E url = Inl e"
    | (icon) html u where "fetchedHtml E lp dbg url = Inr (Some html)" and "html \<noteq> []"
        and "newURL E url = Inr u"
        and "parserGetFavicon E lp dbg (parseFromString E html) u = Inl e"
    by (auto simp: fetchedHtml_def)
  then show ?thesis
  proof cases
    case fetch
    then show ?thesis using Inr f r by (simp add: getFaviconBody_def Let_def)
  next
    case link
    then show ?thesis using Inr f r by (simp add: getFaviconBody_def Let_def)
  next
    case icon
    then show ?thesis using Inr f r by (simp add: getFaviconBody_def Let_def)
  qed
qed

subsection \<open>No rejection\<close>

text \<open>
  Claim C5, as amended. \<^verbatim>\<open>getFavicon\<close> never rejects: it always resolves to a value. When
  the cache does not answer and one of the operations inside the \<^verbatim>\<open>try\<close> block throws a
  value \<open>e\<close> (the creation of the parser; the first fetch strategy; the second one after
  the first has returned no HTML; \<^verbatim>\<open>new URL\<close> after a non-empty HTML text was fetched; the
  extraction of the favicon after that), the call resolves to the empty string, exactly
  one notice is shown, the one for \<open>e\<close>, and the cache is unchanged. When the fetch ends
  without HTML, or the extraction yields \<^verbatim>\<open>null\<close>, the call resolves to the empty string,
  the cache is unchanged, and no notice is shown.
\<close>

theorem getFavicon_never_rejects:
  "(\<exists>v. fst (getFavicon E url st w dbg) = Inr v)
   \<and> (\<forall>e. \<not> cacheHit st w url
        \<and> (createLocalParser E = Inl e
           \<or> (\<exists>lp. createLocalParser E = Inr lp \<and> getHtmlByElectron E lp dbg url = Inl e)
           \<or> (\<exists>lp. createLocalParser E = Inr lp
                 \<and> (getHtmlByElectron E lp dbg url = Inr None
                     \<or> getHtmlByElectron E lp dbg url = Inr (Some []))
                 \<and> getHtmlByRequest E lp dbg url = Inl e)
           \<or> (\<exists>lp html. createLocalParser E = Inr lp
                 \<and> fetchedHtml E lp dbg url = Inr (Some html) \<and> html \<noteq> []
                 \<and> newURL E url = Inl e)
           \<or> (\<exists>lp html u. createLocalParser E = Inr lp
                 \<and> fetchedHtml E lp dbg url = Inr (Some html) \<and> html \<noteq> []
                 \<and> newURL E url = Inr u
                 \<and> parserGetFavicon E lp dbg (parseFromString E html) u = Inl e)) \<longrightarrow>
          fst (getFavicon E url st w dbg) = Inr (Str [])
        \<and> shownNotices (newEffects w (snd (getFavicon E url st w dbg))) = [faviconErrorNotice dbg e]
        \<and> cache (snd (getFavicon E url st w dbg)) = cache w)
   \<and> (\<not> cacheHit st w url
        \<and> (noHtml E url dbg \<or> faviconExtraction E url dbg = Some (Inr None)) \<longrightarrow>
          fst (getFavicon E url st w dbg) = Inr (Str [])
        \<and> shownNotices (newEffects w (snd (getFavicon E url st w dbg))) = []
        \<and> cache (snd (getFavicon E url st w dbg)) = cache w)"
proof (intro conjI allI impI)
  show "\<exists>v. fst (getFavicon E url st w dbg) = Inr v"
    using guarded_resolves[of E url st dbg]
    by (auto simp: getFavicon_def Let_def split: option.splits)
next
  fix e
  assume a: "\<not> cacheHit st w url
        \<and> (createLocalParser E = Inl e
           \<or> (\<exists>lp. createLocalParser E = Inr lp \<and> getHtmlByElectron E lp dbg url = Inl e)
           \<or> (\<exists>lp. createLocalParser E = Inr lp
                 \<and> (getHtmlByElectron E lp dbg url = Inr None
                     \<or> getHtmlByElectron E lp dbg url = Inr (Some []))
                 \<and> getHtmlByRequest E lp dbg url = Inl e)
           \<or> (\<exists>lp html. createLocalParser E = Inr lp
                 \<and> fetchedHtml E lp dbg url = Inr (Some html) \<and> html \<noteq> []
                 \<and> newURL E url = Inl e)
           \<or> (\<exists>lp html u. createLocalParser E = Inr lp
                 \<and> fetchedHtml E lp dbg url = Inr (Some html) \<and> html \<noteq> []
                 \<and> newURL E url = Inr u
                 \<and> parserGetFavicon E lp dbg (parseFromString E html) u = Inl e))"
  let ?w0 = "if useCache st then effect (CacheHas url) w else w"
  have b: "fst (getFaviconBody E url st dbg ?w0) = Inl e"
    by (rule body_thrown) (use a in blast)
  note g = guarded_thrown[OF b]
  have m: "getFavicon E url st w dbg = getFaviconGuarded E url st dbg ?w0"
    using a getFavicon_miss by blast
  show "fst (getFavicon E url st w dbg) = Inr (Str [])" using g m by simp
  show "shownNotices (newEffects w (snd (getFavicon E url st w dbg))) = [faviconErrorNotice dbg e]"
    using g m notices_after_entry[of w E url st dbg] by (cases "useCache st") simp_all
  show "cache (snd (getFavicon E url st w dbg)) = cache w"
    using g m by (cases "useCache st") (simp_all add: cache_entry)
next
  assume a: "\<not> cacheHit st w url
        \<and> (noHtml E url dbg \<or> faviconExtraction E url dbg = Some (Inr None))"
  let ?w0 = "if useCache st then effect (CacheHas url) w else w"
  have b: "fst (getFaviconBody E url st dbg ?w0) = Inr (Str [])"
    using a body_no_html[of E url dbg st ?w0] body_extraction_null[of E url dbg st ?w0] by blast
  note g = guarded_quiet[OF b]
  have m: "getFavicon E url st w dbg = getFaviconGuarded E url st dbg ?w0"
    using a getFavicon_miss by blast
  show "fst (getFavicon E url st w dbg) = Inr (Str [])" using g m by simp
  show "shownNotices (newEffects w (snd (getFavicon E url st w dbg))) = []"
    using g m notices_after_entry[of w E url st dbg] by (cases "useCache st") simp_all
  show "cache (snd (getFavicon E url st w dbg)) = cache w"
    using g m by (cases "useCache st") (simp_all add: cache_entry)
qed

subsection \<open>The cached answer\<close>

text \<open>
  Claim C7. When caching is enabled and the cache holds a value for the URL,
  \<^verbatim>\<open>getFavicon\<close> resolves to that value; the only effects of the call are the question
  \<^verbatim>\<open>cache.has(url)\<close> and the read \<^verbatim>\<open>cache.get(url)\<close>, in this order: no parser is created,
  nothing is fetched or parsed, and the cache is not written.
\<close>

theorem getFavicon_cache_hit:
  "useCache st \<Longrightarrow> cache w url = Some v \<Longrightarrow>
   getFavicon E url st w dbg = (Inr v, w\<lparr>effects := effects w @ [CacheHas url, CacheGet url]\<rparr>)"
  by (simp add: getFavicon_def Let_def effect_def)

subsection \<open>Caching disabled\<close>

text \<open>
  Claim C8. When caching is disabled, the cache after the call is the cache before it,
  the value the call resolves to is the same for any other content \<open>c\<close> of the cache, and
  none of the effects of the call is an access to the cache (neither \<^verbatim>\<open>has\<close>, \<^verbatim>\<open>get\<close> nor
  \<^verbatim>\<open>set\<close>).
\<close>

theorem getFavicon_cache_disabled:
  assumes "\<not> useCache st"
  shows "cache (snd (getFavicon E url st w dbg)) = cache w
       \<and> fst (getFavicon E url st (w\<lparr>cache := c\<rparr>) dbg) = fst (getFavicon E url st w dbg)
       \<and> filter isCacheAccess (newEffects w (snd (getFavicon E url st w dbg))) = []"
proof -
  have g: "\<And>w'. getFavicon E url st w' dbg = getFaviconGuarded E url st dbg w'"
    using assms by (simp add: getFavicon_def)
  obtain r w' where b: "getFaviconBody E url st dbg w = (r, w')"
    by (cases "getFaviconBody E url st dbg w")
  have c: "cache w' = cache w" using body_cache[of E url st dbg w] b assms by auto
  have c1: "cache (snd (getFaviconGuarded E url st dbg w)) = cache w"
    using b c by (cases r) (auto simp: getFaviconGuarded_def effect_def)
  have r: "fst (getFaviconBody E url st dbg (w\<lparr>cache := c\<rparr>)) = fst (getFaviconBody E url st dbg w)"
    by (rule body_result_indep)
  have c2: "fst (getFaviconGuarded E url st dbg (w\<lparr>cache := c\<rparr>)) = fst (getFaviconGuarded E url st dbg w)"
    using r by (auto simp: getFaviconGuarded_def split: prod.splits sum.splits)
  obtain new where n: "effects (snd (getFaviconGuarded E url st dbg w)) = effects w @ new"
      "filter isCacheAccess new = []"
    using guarded_effects[of E url st dbg w] assms by auto
  show ?thesis
    using c1 c2 n by (simp add: g newEffects_def)
qed

text \<open>The definitions to unfold when a run is evaluated.\<close>

lemmas favicon_eval =
  getFavicon_def getFaviconGuarded_def getFaviconBody_def fetchHtml_def fetchedHtml_def
  faviconExtraction_def noHtml_def cacheHit_def demoFavicons_def demoSettings_def emptyWorld_def
  cachedWorld_def effect_def cacheSet_def newEffects_def faviconErrorNotice_def Let_def

text \<open>
  The theorem at a URL whose second fetch strategy throws after the first has returned
  nothing, at an environment in which no parser can be created, and at a page without
  an icon.
\<close>

theorem getFavicon_never_rejects_witness:
  "\<not> cacheHit demoSettings emptyWorld ''https://reset.example''
   \<and> createLocalParser demoFavicons = Inr ()
   \<and> getHtmlByElectron demoFavicons () False ''https://reset.example'' = Inr None
   \<and> getHtmlByRequest demoFavicons () False ''https://reset.example''
       = Inl (ErrorObj ''net::ERR_CONNECTION_RESET'')
   \<and> fst (getFavicon demoFavicons ''https://reset.example'' demoSettings emptyWorld False)
       = Inr (Str [])
   \<and> shownNotices (newEffects emptyWorld
         (snd (getFavicon demoFavicons ''https://reset.example'' demoSettings emptyWorld False)))
       = [faviconErrorNotice False (ErrorObj ''net::ERR_CONNECTION_RESET'')]
   \<and> createLocalParser (demoFavicons\<lparr>createLocalParser := Inl (NonError ''no parser'')\<rparr>)
       = Inl (NonError ''no parser'')
   \<and> shownNotices (newEffects emptyWorld
         (snd (getFavicon (demoFavicons\<lparr>createLocalParser := Inl (NonError ''no parser'')\<rparr>)
                ''https://example.com'' demoSettings emptyWorld False)))
       = [faviconErrorNotice False (NonError ''no parser'')]
   \<and> faviconExtraction demoFavicons ''https://plain.example'' False = Some (Inr None)
   \<and> fst (getFavicon demoFavicons ''https://plain.example'' demoSettings emptyWorld False)
       = Inr (Str [])
   \<and> cache (snd (getFavicon demoFavicons ''https://plain.example'' demoSettings emptyWorld False))
       = cache emptyWorld"
proof -
  have m1: "\<not> cacheHit demoSettings emptyWorld ''https://reset.example''"
    by (simp add: favicon_eval)
  have c1: "createLocalParser demoFavicons = Inr ()" by (simp add: favicon_eval)
  have e1: "getHtmlByElectron demoFavicons () False ''https://reset.example'' = Inr None"
    by (simp add: favicon_eval)
  have r1: "getHtmlByRequest demoFavicons () False ''https://reset.example''
       = Inl (ErrorObj ''net::ERR_CONNECTION_RESET'')"
    by (simp add: favicon_eval)
  have m2: "\<not> cacheHit demoSettings emptyWorld ''https://example.com''"
    by (simp add: favicon_eval)
  have c2: "createLocalParser (demoFavicons\<lparr>createLocalParser := Inl (NonError ''no parser'')\<rparr>)
       = Inl (NonError ''no parser'')" by simp
  have m3: "\<not> cacheHit demoSettings emptyWorld ''https://plain.example''"
    by (simp add: favicon_eval)
  have h3: "faviconExtraction demoFavicons ''https://plain.example'' False = Some (Inr None)"
    by (simp add: favicon_eval)
  note t1 = getFavicon_never_rejects[of demoFavicons "''https://reset.example''" demoSettings
      emptyWorld False, THEN conjunct2, THEN conjunct1, rule_format,
      of "ErrorObj ''net::ERR_CONNECTION_RESET''"]
  note t2 = getFavicon_never_rejects[of
      "demoFavicons\<lparr>createLocalParser := Inl (NonError ''no parser'')\<rparr>"
      "''https://example.com''" demoSettings emptyWorld False, THEN conjunct2, THEN conjunct1,
      rule_format, of "NonError ''no parser''"]
  note t3 = getFavicon_never_rejects[of demoFavicons "''https://plain.example''" demoSettings
      emptyWorld False, THEN conjunct2, THEN conjunct2, rule_format]
  have a1: "fst (getFavicon demoFavicons ''https://reset.example'' demoSettings emptyWorld False)
       = Inr (Str [])
     \<and> shownNotices (newEffects emptyWorld
         (snd (getFavicon demoFavicons ''https://reset.example'' demoSettings emptyWorld False)))
       = [faviconErrorNotice False (ErrorObj ''net::ERR_CONNECTION_RESET'')]
     \<and> cache (snd (getFavicon demoFavicons ''https://reset.example'' demoSettings emptyWorld False))
       = cache emptyWorld"
    by (rule t1) (use m1 c1 e1 r1 in blast)
  have a2: "fst (getFavicon (demoFavicons\<lparr>createLocalParser := Inl (NonError ''no parser'')\<rparr>)
                ''https://example.com'' demoSettings emptyWorld False) = Inr (Str [])
     \<and> shownNotices (newEffects emptyWorld
         (snd (getFavicon (demoFavicons\<lparr>createLocalParser := Inl (NonError ''no parser'')\<rparr>)
                ''https://example.com'' demoSettings emptyWorld False)))
       = [faviconErrorNotice False (NonError ''no parser'')]
     \<and> cache (snd (getFavicon (demoFavicons\<lparr>createLocalParser := Inl (NonError ''no parser'')\<rparr>)
                ''https://example.com'' demoSettings emptyWorld False)) = cache emptyWorld"
    by (rule t2) (use m2 c2 in blast)
  have a3: "fst (getFavicon demoFavicons ''https://plain.example'' demoSettings emptyWorld False)
       = Inr (Str [])
     \<and> shownNotices (newEffects emptyWorld
         (snd (getFavicon demoFavicons ''https://plain.example'' demoSettings emptyWorld False)))
       = []
     \<and> cache (snd (getFavicon demoFavicons ''https://plain.example'' demoSettings emptyWorld False))
       = cache emptyWorld"
    by (rule t3) (use m3 h3 in blast)
  show ?thesis using m1 c1 e1 r1 c2 h3 a1 a2 a3 by blast
qed

text \<open>
  Claim C5 as stated has every fetch failure reported by a notice. Where both fetch
  strategies return \<^verbatim>\<open>null\<close>, the call resolves to the empty string and the run shows no
  notice at all.
\<close>

theorem getFavicon_silent_counterexample:
  "noHtml demoFavicons ''https://down.example'' False
   \<and> fst (getFavicon demoFavicons ''https://down.example'' demoSettings emptyWorld False)
       = Inr (Str [])
   \<and> shownNotices (effects
         (snd (getFavicon demoFavicons ''https://down.example'' demoSettings emptyWorld False)))
       = []"
  by (simp add: favicon_eval)

text \<open>The theorem at a cache that holds the favicon of the URL.\<close>

theorem getFavicon_cache_hit_witness:
  "useCache demoSettings
   \<and> cache cachedWorld ''https://example.com'' = Some (Str ''https://example.com/favicon.ico'')
   \<and> getFavicon demoFavicons ''https://example.com'' demoSettings cachedWorld False
       = (Inr (Str ''https://example.com/favicon.ico''),
          cachedWorld\<lparr>effects := [CacheHas ''https://example.com'', CacheGet ''https://example.com'']\<rparr>)"
proof -
  have h1: "useCache demoSettings" by (simp add: demoSettings_def)
  have h2: "cache cachedWorld ''https://example.com'' = Some (Str ''https://example.com/favicon.ico'')"
    by (simp add: cachedWorld_def)
  have e: "effects cachedWorld = []" by (simp add: cachedWorld_def)
  show ?thesis
    using getFavicon_cache_hit[OF h1 h2, of demoFavicons False] h1 h2 e by simp
qed

text \<open>The theorem at a filled and at an empty cache.\<close>

theorem getFavicon_cache_disabled_witness:
  "\<not> useCache (demoSettings\<lparr>useCache := False\<rparr>)
   \<and> cache (snd (getFavicon demoFavicons ''https://example.com''
         (demoSettings\<lparr>useCache := False\<rparr>) cachedWorld False)) = cache cachedWorld
   \<and> fst (getFavicon demoFavicons ''https://example.com''
         (demoSettings\<lparr>useCache := False\<rparr>) emptyWorld False)
       = fst (getFavicon demoFavicons ''https://example.com''
         (demoSettings\<lparr>useCache := False\<rparr>) cachedWorld False)"
proof -
  have h: "\<not> useCache (demoSettings\<lparr>useCache := False\<rparr>)" by simp
  have w: "cachedWorld\<lparr>cache := Map.empty\<rparr> = emptyWorld"
    by (simp add: cachedWorld_def emptyWorld_def)
  show ?thesis
    using getFavicon_cache_disabled[OF h, of demoFavicons "''https://example.com''" cachedWorld False
        Map.empty] h w by simp
qed

section \<open>Properties of the rendering\<close>

text \<open>
  Claim C6, as amended. For every aspect ratio above 0 the computed width is \<^verbatim>\<open>Math.round\<close>
  of the double nearest to \<open>16000 / aspectRatio\<close>, which is 0 for the aspect ratio
  \<^verbatim>\<open>Infinity\<close>; the width is 16000 when the aspect ratio is absent; the width in the template
  data of a rendering is this function of the aspect ratio alone, so rendering the same
  values twice gives the same width.
\<close>

theorem calculatedWidth_formula:
  "(0 < r \<longrightarrow> calculatedWidth (Some (Finite r)) = mathRound (roundDouble (16000 / r)))
   \<and> calculatedWidth (Some PosInfinity) = Finite 0
   \<and> calculatedWidth None = Finite 16000
   \<and> tpl_calculatedWidth (renderEmbed info img ar st) = calculatedWidth ar"
proof -
  have w: "(160 :: rat) * 100 = 16000" by simp
  show ?thesis
    unfolding calculatedWidth_def renderEmbed_def Let_def w
    by (simp add: truthyNumber_def quotientBy_def mathRound_def floor_one_fraction)
qed

text \<open>The theorem at the aspect ratio 2.\<close>

theorem calculatedWidth_formula_witness:
  "(0::rat) < 2 \<and> calculatedWidth (Some (Finite 2)) = Finite 8000"
  using calculatedWidth_formula[of 2] by (simp add: number_eval)

text \<open>
  Claim C6 as stated gives \<open>round (1600 / aspectRatio)\<close>. At the aspect ratio 1 the width
  is 16000, which is not the rounded quotient of 1600 by 1.
\<close>

theorem calculatedWidth_1600_counterexample:
  "(0::rat) < 1 \<and> calculatedWidth (Some (Finite 1)) = Finite 16000
   \<and> mathRound (roundDouble (1600 / 1)) = Finite 1600
   \<and> calculatedWidth (Some (Finite 1)) \<noteq> mathRound (roundDouble (1600 / 1))"
  by (simp add: calculatedWidth_def number_eval)

text \<open>
  The rounding of the quotient to a double is visible in the width. The double
  4571.428571428572 is \<open>5026338869833143 / 2 ^ 40\<close>; the exact quotient of 16000 by it
  lies below 3.5 and rounds to 3, the double quotient is 3.5 and \<^verbatim>\<open>Math.round\<close> gives 4.
  Likewise at \<open>3602879701896397 / 2 ^ 46\<close>, the double 51.2: 312 against 313.
\<close>

lemma calculatedWidth_double_quotient:
  "calculatedWidth (Some (Finite (5026338869833143 / 1099511627776))) = Finite 4"
  "round (16000 / (5026338869833143 / 1099511627776) :: rat) = 3"
  "calculatedWidth (Some (Finite (3602879701896397 / 70368744177664))) = Finite 313"
  "round (16000 / (3602879701896397 / 70368744177664) :: rat) = 312"
  by (simp_all add: calculatedWidth_def number_eval round_def)

text \<open>The falsy ratios 0 and \<^verbatim>\<open>NaN\<close> give the full width; a negative ratio is divided by.\<close>

lemma calculatedWidth_falsy:
  "calculatedWidth (Some (Finite 0)) = Finite 16000"
  "calculatedWidth (Some NaN) = Finite 16000"
  "calculatedWidth (Some NegInfinity) = Finite 0"
  "calculatedWidth (Some (Finite (- 2))) = Finite (- 8000)"
  by (simp_all add: calculatedWidth_def number_eval)

section \<open>Properties of the code-block handler\<close>

text \<open>
  A call of \<^verbatim>\<open>getFavicon\<close> is its first part followed by the settling of its promise.
\<close>

lemma getFavicon_in_two_parts:
  "getFavicon E url st w dbg =
     (case getFaviconStart E url st w dbg of
        (call, w1) \<Rightarrow> getFaviconSettle E url st dbg call w1)"
  by (simp add: getFavicon_def getFaviconStart_def getFaviconSettle_def getFaviconFinish_def
      getFaviconGuarded_def getFaviconBody_def fetchHtml_def Let_def
      split: option.splits sum.splits prod.splits)

lemma effects_renderWithButtons:
  "effects (renderWithButtons info st w)
     = effects w @ [RenderEmbed info (renderEmbed info (info_image info) (info_aspectRatio info) st),
                    AddButtonHandlers info]"
  by (simp add: renderWithButtons_def effect_def)

lemma isDummyEmbed_fields:
  "isDummyEmbed spinner info \<longleftrightarrow>
     info_title info = Some ''Fetching'' \<and> info_image info = Some spinner
     \<and> (\<exists>rest. info_description info = Some (''Fetching '' @ rest))"
  by (auto simp: isDummyEmbed_def prefix_def split: option.splits)

lemma normal_path_ends_with_buttons:
  assumes "\<not> isDummyEmbed (SPINNER H) (parseYaml H source)"
  shows "\<exists>info. last (effects (handleEmbedCodeBlock H E source ctx st w)) = AddButtonHandlers info"
proof -
  have "\<exists>info w'. handleEmbedCodeBlock H E source ctx st w = renderWithButtons info st w'"
    using assms by (auto simp: handleEmbedCodeBlock_def Let_def split: prod.splits)
  then show ?thesis by (auto simp: effects_renderWithButtons)
qed

text \<open>
  Claim C9, as amended. When the parsed fields of a block have the title \<^verbatim>\<open>Fetching\<close>,
  the spinner as image and a description that starts with \<^verbatim>\<open>Fetching \<close>, the handler
  renders these fields as they are, with the aspect ratio 1 (so with the width 16000),
  and does nothing else: the world after the call is the world before it with this one
  rendering added. No image is converted, no favicon fetched, no image probed, and the
  cache is neither asked nor written. When one of the three conditions fails, the block
  is handled like any other: the last thing the handler does is to attach the button
  handlers to a rendering.
\<close>

theorem stub_rendered_verbatim:
  "(info_title (parseYaml H source) = Some ''Fetching''
      \<and> info_image (parseYaml H source) = Some (SPINNER H)
      \<and> (\<exists>rest. info_description (parseYaml H source) = Some (''Fetching '' @ rest)) \<longrightarrow>
        handleEmbedCodeBlock H E source ctx st w
          = w\<lparr>effects := effects w @
               [RenderEmbed (parseYaml H source)
                  (renderEmbed (parseYaml H source) (Some (SPINNER H)) (Some (Finite 1)) st)]\<rparr>
      \<and> tpl_calculatedWidth
           (renderEmbed (parseYaml H source) (Some (SPINNER H)) (Some (Finite 1)) st)
          = Finite 16000)
   \<and> (\<not> (info_title (parseYaml H source) = Some ''Fetching''
          \<and> info_image (parseYaml H source) = Some (SPINNER H)
          \<and> (\<exists>rest. info_description (parseYaml H source) = Some (''Fetching '' @ rest))) \<longrightarrow>
        (\<exists>info. last (effects (handleEmbedCodeBlock H E source ctx st w))
                  = AddButtonHandlers info))"
proof (intro conjI impI)
  assume a: "info_title (parseYaml H source) = Some ''Fetching''
      \<and> info_image (parseYaml H source) = Some (SPINNER H)
      \<and> (\<exists>rest. info_description (parseYaml H source) = Some (''Fetching '' @ rest))"
  then have d: "isDummyEmbed (SPINNER H) (parseYaml H source)"
    by (simp add: isDummyEmbed_fields)
  show "handleEmbedCodeBlock H E source ctx st w
          = w\<lparr>effects := effects w @
               [RenderEmbed (parseYaml H source)
                  (renderEmbed (parseYaml H source) (Some (SPINNER H)) (Some (Finite 1)) st)]\<rparr>"
    using a d by (simp add: handleEmbedCodeBlock_def Let_def effect_def)
  show "tpl_calculatedWidth
           (renderEmbed (parseYaml H source) (Some (SPINNER H)) (Some (Finite 1)) st)
          = Finite 16000"
    by (simp add: renderEmbed_def calculatedWidth_def number_eval)
next
  assume "\<not> (info_title (parseYaml H source) = Some ''Fetching''
          \<and> info_image (parseYaml H source) = Some (SPINNER H)
          \<and> (\<exists>rest. info_description (parseYaml H source) = Some (''Fetching '' @ rest)))"
  then have "\<not> isDummyEmbed (SPINNER H) (parseYaml H source)"
    by (simp add: isDummyEmbed_fields)
  then show "\<exists>info. last (effects (handleEmbedCodeBlock H E source ctx st w))
                  = AddButtonHandlers info"
    by (rule normal_path_ends_with_buttons)
qed

text \<open>The definitions to unfold when a run of the handler is evaluated.\<close>

lemmas handler_eval =
  handleEmbedCodeBlock_def isDummyEmbed_def looksLikeStub_def convertLocalImage_def
  faviconSetup_def aspectSetup_def settle_def settleOrder_def renderWithButtons_def
  getFaviconStart_def getFaviconSettle_def getFaviconFinish_def errorNotice_def errorLocation_def
  truthyCached_def truthyNumber_def
  demoHandler_def demoStub_def demoSpinner_def demoContext_def emptyHWorld_def

text \<open>
  The theorem at the block that \<^verbatim>\<open>embedUrl\<close> inserts, and at the same block under the
  title \<^verbatim>\<open>Fetching rates\<close>.
\<close>

theorem stub_rendered_verbatim_witness:
  "info_title (parseYaml demoHandler ''stub'') = Some ''Fetching''
   \<and> info_image (parseYaml demoHandler ''stub'') = Some (SPINNER demoHandler)
   \<and> info_description (parseYaml demoHandler ''stub'')
       = Some (''Fetching '' @ ''https://example.com'')
   \<and> effects (handleEmbedCodeBlock demoHandler demoFavicons ''stub'' demoContext demoSettings
        emptyHWorld)
       = [RenderEmbed demoStub (renderEmbed demoStub (Some demoSpinner) (Some (Finite 1)) demoSettings)]
   \<and> info_title (parseYaml demoHandler ''other'') \<noteq> Some ''Fetching''
   \<and> (\<exists>info. last (effects (handleEmbedCodeBlock demoHandler demoFavicons ''other'' demoContext
          demoSettings emptyHWorld)) = AddButtonHandlers info)"
proof -
  have p: "parseYaml demoHandler ''stub'' = demoStub" by (simp add: demoHandler_def)
  have s: "SPINNER demoHandler = demoSpinner" by (simp add: demoHandler_def)
  have h1: "info_title (parseYaml demoHandler ''stub'') = Some ''Fetching''"
    by (simp add: p demoStub_def)
  have h2: "info_image (parseYaml demoHandler ''stub'') = Some (SPINNER demoHandler)"
    by (simp add: p s demoStub_def)
  have h3: "info_description (parseYaml demoHandler ''stub'')
       = Some (''Fetching '' @ ''https://example.com'')"
    by (simp add: p demoStub_def)
  have h4: "info_title (parseYaml demoHandler ''other'') \<noteq> Some ''Fetching''"
    by (simp add: demoHandler_def demoStub_def)
  note t1 = stub_rendered_verbatim[of demoHandler "''stub''" demoFavicons demoContext
      demoSettings emptyHWorld, THEN conjunct1, rule_format]
  note t2 = stub_rendered_verbatim[of demoHandler "''other''" demoFavicons demoContext
      demoSettings emptyHWorld, THEN conjunct2, rule_format]
  have a1: "handleEmbedCodeBlock demoHandler demoFavicons ''stub'' demoContext demoSettings
        emptyHWorld
      = emptyHWorld\<lparr>effects := effects emptyHWorld @
           [RenderEmbed (parseYaml demoHandler ''stub'')
              (renderEmbed (parseYaml demoHandler ''stub'') (Some (SPINNER demoHandler))
                 (Some (Finite 1)) demoSettings)]\<rparr>"
    using t1 h1 h2 h3 by blast
  have a2: "\<exists>info. last (effects (handleEmbedCodeBlock demoHandler demoFavicons ''other''
          demoContext demoSettings emptyHWorld)) = AddButtonHandlers info"
    by (rule t2) (use h4 in blast)
  have e: "effects (handleEmbedCodeBlock demoHandler demoFavicons ''stub'' demoContext demoSettings
        emptyHWorld)
       = [RenderEmbed demoStub (renderEmbed demoStub (Some demoSpinner) (Some (Finite 1)) demoSettings)]"
    unfolding a1 by (simp add: p s emptyHWorld_def)
  show ?thesis using h1 h2 h3 h4 a2 e by blast
qed

text \<open>
  Claim C9 as stated recognises a stub by the spinner image and the description prefix.
  A block with both, whose title is not \<^verbatim>\<open>Fetching\<close>, is enriched like any other block.
  Before the first rendering the handler and \<^verbatim>\<open>getFavicon\<close> ask the cache, the fetch of
  the page is started and the image is probed; afterwards the favicon is written to the
  cache by \<^verbatim>\<open>getFavicon\<close> and by the handler, and the failure of the probe is shown.
\<close>

theorem stub_needs_title_counterexample:
  "looksLikeStub (SPINNER demoHandler) (parseYaml demoHandler ''other'')
   \<and> takeWhile (\<lambda>ev. \<not> isRendering ev)
       (effects (handleEmbedCodeBlock demoHandler demoFavicons ''other'' demoContext demoSettings
          emptyHWorld))
       = [CacheHas ''https://example.com'', CacheHas ''https://example.com'',
          CreateLocalParser, HtmlByElectron ''https://example.com'',
          CacheHas demoSpinner, GetImageDimensions demoSpinner]
   \<and> filter isCacheAccess
       (effects (handleEmbedCodeBlock demoHandler demoFavicons ''other'' demoContext demoSettings
          emptyHWorld))
       = [CacheHas ''https://example.com'', CacheHas ''https://example.com'',
          CacheHas demoSpinner,
          CacheSet ''https://example.com'' (Str ''https://example.com/i.png''),
          CacheSet ''https://example.com'' (Str ''https://example.com/i.png'')]
   \<and> HtmlByRequest ''https://example.com''
       \<in> set (effects (handleEmbedCodeBlock demoHandler demoFavicons ''other'' demoContext
                 demoSettings emptyHWorld))
   \<and> ShowNoticeCall
        (OfText ''Error calculating dynamic aspect ratio at Notes/Links.md:12: no image'')
        (Some ''error'')
        \<lparr>optDebug = False, optContext = ''Link Embed - Aspect Ratio'', optType = None,
         optDuration = Some 7000, optPrefix = None\<rparr>
       \<in> set (effects (handleEmbedCodeBlock demoHandler demoFavicons ''other'' demoContext
                 demoSettings emptyHWorld))"
  by (simp add: handler_eval favicon_eval decimalText_digit decimalText_more digitChar_def)

section \<open>Properties of the searches and of the replacement\<close>

lemma find_upt_Some:
  "find P [k ..< n] = Some j \<longleftrightarrow> k \<le> j \<and> j < n \<and> P j \<and> (\<forall>i. k \<le> i \<and> i < j \<longrightarrow> \<not> P i)"
proof (induction "n - k" arbitrary: k)
  case 0
  then show ?case by auto
next
  case (Suc d)
  then have kn: "k < n" by simp
  have step: "[k ..< n] = k # [Suc k ..< n]" using kn by (simp add: upt_rec)
  have ih: "find P [Suc k ..< n] = Some j \<longleftrightarrow>
      Suc k \<le> j \<and> j < n \<and> P j \<and> (\<forall>i. Suc k \<le> i \<and> i < j \<longrightarrow> \<not> P i)"
    using Suc by simp
  show ?case
  proof (cases "P k")
    case True
    then show ?thesis using kn step by (auto simp: not_less)
  next
    case False
    have "find P [k ..< n] = find P [Suc k ..< n]" using False step by simp
    also have "\<dots> = Some j \<longleftrightarrow>
      Suc k \<le> j \<and> j < n \<and> P j \<and> (\<forall>i. Suc k \<le> i \<and> i < j \<longrightarrow> \<not> P i)" by (rule ih)
    finally show ?thesis using False
      by (metis Suc_leD Suc_le_eq le_neq_implies_less not_less_eq_eq)
  qed
qed

lemma find_upt_None:
  "find P [k ..< n] = None \<longleftrightarrow> (\<forall>i. k \<le> i \<and> i < n \<longrightarrow> \<not> P i)"
  by (auto simp: find_None_iff)

lemma find_rev_upt_Some:
  "find P (rev [0 ..< n]) = Some j \<longleftrightarrow> j < n \<and> P j \<and> (\<forall>i. j < i \<and> i < n \<longrightarrow> \<not> P i)"
proof (induction n)
  case 0
  then show ?case by simp
next
  case (Suc n)
  show ?case
  proof (cases "P n")
    case True
    then show ?thesis by (auto simp: less_Suc_eq)
  next
    case False
    then show ?thesis using Suc by (auto simp: less_Suc_eq)
  qed
qed

lemma find_rev_upt_None:
  "find P (rev [0 ..< n]) = None \<longleftrightarrow> (\<forall>i. i < n \<longrightarrow> \<not> P i)"
  by (auto simp: find_None_iff)

lemma indexOf_eq:
  assumes "k \<le> j" and "occursAt x s j" and "\<forall>i. k \<le> i \<and> i < j \<longrightarrow> \<not> occursAt x s i"
  shows "indexOf s x k = int j"
proof -
  have j: "j \<le> length s" using assms(2) by (simp add: occursAt_def)
  have "find (occursAt x s) [min k (length s) ..< Suc (length s)] = Some j"
    unfolding find_upt_Some using assms j by auto
  then show ?thesis by (simp add: indexOf_def)
qed

lemma indexOf_none:
  "indexOf s x k = - 1 \<longleftrightarrow> (\<forall>i. min k (length s) \<le> i \<longrightarrow> \<not> occursAt x s i)"
proof -
  have "indexOf s x k = - 1 \<longleftrightarrow> find (occursAt x s) [min k (length s) ..< Suc (length s)] = None"
    by (simp add: indexOf_def split: option.splits)
  also have "\<dots> \<longleftrightarrow> (\<forall>i. min k (length s) \<le> i \<and> i < Suc (length s) \<longrightarrow> \<not> occursAt x s i)"
    by (rule find_upt_None)
  also have "\<dots> \<longleftrightarrow> (\<forall>i. min k (length s) \<le> i \<longrightarrow> \<not> occursAt x s i)"
    by (auto simp: occursAt_def less_Suc_eq_le)
  finally show ?thesis .
qed

lemma indexOf_found:
  assumes "indexOf s x k \<noteq> - 1"
  shows "occursAt x s (nat (indexOf s x k)) \<and> min k (length s) \<le> nat (indexOf s x k)
       \<and> (\<forall>i. min k (length s) \<le> i \<and> i < nat (indexOf s x k) \<longrightarrow> \<not> occursAt x s i)"
proof -
  obtain j where f: "find (occursAt x s) [min k (length s) ..< Suc (length s)] = Some j"
    using assms by (auto simp: indexOf_def split: option.splits)
  then have "indexOf s x k = int j" by (simp add: indexOf_def)
  then show ?thesis using f[unfolded find_upt_Some] by simp
qed

lemma lastIndexOf_eq:
  assumes "j \<le> k" and "occursAt x s j" and "\<forall>i. j < i \<and> i \<le> k \<longrightarrow> \<not> occursAt x s i"
  shows "lastIndexOf s x k = int j"
proof -
  have j: "j \<le> length s" using assms(2) by (simp add: occursAt_def)
  have "find (occursAt x s) (rev [0 ..< Suc (min k (length s))]) = Some j"
    unfolding find_rev_upt_Some using assms j by auto
  then show ?thesis by (simp add: lastIndexOf_def)
qed

lemma lastIndexOf_none:
  "lastIndexOf s x k = - 1 \<longleftrightarrow> (\<forall>i. i \<le> k \<longrightarrow> \<not> occursAt x s i)"
proof -
  have "lastIndexOf s x k = - 1 \<longleftrightarrow> find (occursAt x s) (rev [0 ..< Suc (min k (length s))]) = None"
    by (simp add: lastIndexOf_def split: option.splits)
  also have "\<dots> \<longleftrightarrow> (\<forall>i. i < Suc (min k (length s)) \<longrightarrow> \<not> occursAt x s i)"
    by (rule find_rev_upt_None)
  also have "\<dots> \<longleftrightarrow> (\<forall>i. i \<le> k \<longrightarrow> \<not> occursAt x s i)"
    by (auto simp: occursAt_def min_def split: if_splits)
  finally show ?thesis .
qed

lemma sublist_occursAt: "sublist x s \<longleftrightarrow> (\<exists>j. occursAt x s j)"
proof
  assume "sublist x s"
  then obtain ps ss where "s = ps @ x @ ss" by (auto simp: sublist_def)
  then have "occursAt x s (length ps)" by (simp add: occursAt_def)
  then show "\<exists>j. occursAt x s j" ..
next
  assume "\<exists>j. occursAt x s j"
  then obtain j where "j \<le> length s" "prefix x (drop j s)" by (auto simp: occursAt_def)
  then obtain ss where "drop j s = x @ ss" by (auto simp: prefix_def)
  then have "s = take j s @ x @ ss" by (metis append_take_drop_id)
  then show "sublist x s" unfolding sublist_def by blast
qed

lemma includesText_sublist: "includesText s x \<longleftrightarrow> sublist x s"
  by (simp add: includesText_def indexOf_none sublist_occursAt)

lemma indexOf_absent: "indexOf s x 0 = - 1 \<longleftrightarrow> \<not> sublist x s"
  by (simp add: indexOf_none sublist_occursAt)

lemma set_occurrences: "set (occurrences x s) = {j. occursAt x s j}"
proof -
  have "\<And>j. occursAt x s j \<Longrightarrow> j < Suc (length s)" by (simp add: occursAt_def)
  then show ?thesis unfolding occurrences_def by (auto simp del: upt_Suc)
qed

lemma occursAt_window:
  assumes "occursAt c (u @ v) j" and "j + length c \<le> length u"
  shows "occursAt c u j"
proof -
  have j: "j \<le> length u" using assms(2) by simp
  have p: "prefix c (drop j u @ v)" using assms(1) j by (simp add: occursAt_def)
  have len: "length c \<le> length (drop j u)" using assms(2) by simp
  from p have "prefix c (drop j u) \<or> (\<exists>us. c = drop j u @ us \<and> prefix us v)"
    by (simp add: prefix_append)
  then have "prefix c (drop j u)"
  proof
    assume "prefix c (drop j u)" then show ?thesis .
  next
    assume "\<exists>us. c = drop j u @ us \<and> prefix us v"
    then obtain us where us: "c = drop j u @ us" by blast
    then have "us = []" using len by (metis add_le_same_cancel1 le_zero_eq length_0_conv length_append)
    then show ?thesis using us by simp
  qed
  then show ?thesis using j by (simp add: occursAt_def)
qed

lemma occursAt_shift:
  "occursAt c (a @ s) (length a + j) \<longleftrightarrow> occursAt c s j"
  by (simp add: occursAt_def)

lemma occursAt_here: "occursAt c (a @ c @ r) (length a)"
  by (simp add: occursAt_def)

lemma no_straddle:
  assumes A: "\<not> sublist X A" and B: "\<not> sublist X B" and C: "\<not> sublist X C"
    and hd: "B = c # B1" and lst: "B = B2 @ [c]" and c: "c \<notin> set X"
  shows "\<not> sublist X (A @ B @ C)"
proof
  assume s: "sublist X (A @ B @ C)"
  have BC: "\<not> sublist X (B @ C)"
  proof
    assume "sublist X (B @ C)"
    then obtain x1 x2 where x: "X = x1 @ x2" "suffix x1 B" "prefix x2 C"
      using B C by (auto simp: sublist_append)
    show False
    proof (cases "x1 = []")
      case True
      then show ?thesis using x C by auto
    next
      case False
      then have "last x1 = last B" using x(2) by (auto simp: suffix_def)
      then have "last x1 = c" using lst by simp
      then have "c \<in> set X" using False x(1) by (metis Un_iff last_in_set set_append)
      then show ?thesis using c by simp
    qed
  qed
  from s obtain x1 x2 where x: "X = x1 @ x2" "suffix x1 A" "prefix x2 (B @ C)"
    using A BC by (auto simp: sublist_append)
  show False
  proof (cases "x2 = []")
    case True
    then show ?thesis using x A by auto
  next
    case False
    then have "hd x2 = c" using x(3) hd by (cases x2) (auto simp: prefix_def)
    then have "c \<in> set X" using False x(1) by (metis Un_iff hd_in_set set_append)
    then show ?thesis using c by simp
  qed
qed

lemma located:
  fixes pre b1 X b2 post op cl cl2 c1 :: string
  defines "fullText \<equiv> pre @ op @ b1 @ X @ b2 @ cl @ post"
  defines "i0 \<equiv> length pre + length op + length b1"
  assumes cl: "cl = cl2 @ c1" and c1: "length c1 = 1" and opcl: "prefix cl op"
    and self: "\<And>m r. 0 < m \<Longrightarrow> m < length op \<Longrightarrow> \<not> prefix op (drop m op @ r)"
    and only: "\<forall>j. occursAt X fullText j \<longrightarrow> j = i0"
    and nofence: "\<not> sublist cl (b1 @ X @ b2 @ cl2)"
  shows "indexOf fullText X 0 = int i0"
    and "lastIndexOf fullText op i0 = int (length pre)"
    and "indexOf fullText cl i0 = int (i0 + length X + length b2)"
proof -
  have Xne: "X \<noteq> []"
  proof
    assume "X = []"
    then have "occursAt X fullText 0" by (simp add: occursAt_def)
    then have "0 = i0" using only by blast
    moreover have "op \<noteq> []" using opcl cl c1 by (auto simp: prefix_def)
    ultimately show False by (simp add: i0_def)
  qed
  have ft: "fullText = (pre @ op) @ (b1 @ X @ b2 @ cl2) @ (c1 @ post)"
    by (simp add: fullText_def cl)
  have inner: "\<not> occursAt cl (b1 @ X @ b2 @ cl2) k" for k
    using nofence by (auto simp: sublist_occursAt)
  have lencl: "length cl = length cl2 + 1" using cl c1 by simp
  have at_i0: "occursAt X fullText i0"
  proof -
    have "occursAt X ((pre @ op @ b1) @ X @ (b2 @ cl @ post)) (length (pre @ op @ b1))"
      by (rule occursAt_here)
    then show ?thesis by (simp add: fullText_def i0_def add.assoc)
  qed
  show "indexOf fullText X 0 = int i0"
  proof (rule indexOf_eq)
    show "0 \<le> i0" by simp
    show "occursAt X fullText i0" by (rule at_i0)
    show "\<forall>i. 0 \<le> i \<and> i < i0 \<longrightarrow> \<not> occursAt X fullText i" using only by auto
  qed
  have at_pre: "occursAt op fullText (length pre)"
    unfolding fullText_def by (rule occursAt_here)
  have no_open: "\<not> occursAt op fullText i" if i: "length pre < i" "i \<le> i0" for i
  proof
    assume o: "occursAt op fullText i"
    define m where "m = i - length pre"
    have m: "0 < m" "i = length pre + m" using i by (simp_all add: m_def)
    have o1: "occursAt op (op @ b1 @ X @ b2 @ cl @ post) m"
      using o unfolding m(2) fullText_def by (simp only: occursAt_shift)
    show False
    proof (cases "m < length op")
      case True
      have "prefix op (drop m op @ (b1 @ X @ b2 @ cl @ post))"
        using o1 True by (simp add: occursAt_def)
      then show ?thesis using self[OF m(1) True] by blast
    next
      case False
      define k where "k = m - length op"
      have k: "m = length op + k" using False by (simp add: k_def)
      have kb: "k \<le> length b1" using i m False by (simp add: k_def i0_def)
      have "occursAt op (b1 @ X @ b2 @ cl @ post) k"
        using o1 unfolding k by (simp only: occursAt_shift)
      then have "occursAt cl (b1 @ X @ b2 @ cl @ post) k"
        using opcl by (auto simp: occursAt_def intro: prefix_order.trans)
      then have "occursAt cl ((b1 @ X @ b2 @ cl2) @ (c1 @ post)) k"
        by (simp add: cl)
      then have "occursAt cl (b1 @ X @ b2 @ cl2) k"
      proof (rule occursAt_window)
        have "1 \<le> length X" using Xne by (cases X) simp_all
        then show "k + length cl \<le> length (b1 @ X @ b2 @ cl2)" using kb lencl by simp
      qed
      then show ?thesis using inner by blast
    qed
  qed
  show "lastIndexOf fullText op i0 = int (length pre)"
  proof (rule lastIndexOf_eq)
    show "length pre \<le> i0" by (simp add: i0_def)
    show "occursAt op fullText (length pre)" by (rule at_pre)
    show "\<forall>i. length pre < i \<and> i \<le> i0 \<longrightarrow> \<not> occursAt op fullText i" using no_open by blast
  qed
  have at_end: "occursAt cl fullText (i0 + length X + length b2)"
  proof -
    have "occursAt cl ((pre @ op @ b1 @ X @ b2) @ cl @ post) (length (pre @ op @ b1 @ X @ b2))"
      by (rule occursAt_here)
    then show ?thesis by (simp add: fullText_def i0_def add.assoc)
  qed
  have no_close: "\<not> occursAt cl fullText i" if i: "i0 \<le> i" "i < i0 + length X + length b2" for i
  proof
    assume o: "occursAt cl fullText i"
    define k where "k = i - (length pre + length op)"
    have k: "i = length (pre @ op) + k" using i by (simp add: k_def i0_def)
    have "occursAt cl ((b1 @ X @ b2 @ cl2) @ (c1 @ post)) k"
      using o unfolding k ft by (simp only: occursAt_shift)
    then have "occursAt cl (b1 @ X @ b2 @ cl2) k"
    proof (rule occursAt_window)
      show "k + length cl \<le> length (b1 @ X @ b2 @ cl2)"
        using i lencl by (simp add: k_def i0_def)
    qed
    then show False using inner by blast
  qed
  show "indexOf fullText cl i0 = int (i0 + length X + length b2)"
  proof (rule indexOf_eq)
    show "i0 \<le> i0 + length X + length b2" by simp
    show "occursAt cl fullText (i0 + length X + length b2)" by (rule at_end)
    show "\<forall>i. i0 \<le> i \<and> i < i0 + length X + length b2 \<longrightarrow> \<not> occursAt cl fullText i"
      using no_close by blast
  qed
qed

lemma openingFence_length: "length openingFence = 8"
  by (simp add: openingFence_def)

lemma closingFence_length: "length closingFence = 3"
  by (simp add: closingFence_def)

lemma closingFence_split: "closingFence = ''``'' @ ''`''"
  by (simp add: closingFence_def)

lemma closingFence_prefix: "prefix closingFence openingFence"
  by (simp add: closingFence_def openingFence_def)

lemma openingFence_self:
  assumes "0 < m" and "m < length openingFence"
  shows "\<not> prefix openingFence (drop m openingFence @ r)"
proof -
  have "m = 1 \<or> m = 2 \<or> m = 3 \<or> m = 4 \<or> m = 5 \<or> m = 6 \<or> m = 7"
    using assms by (simp add: openingFence_length) arith
  then show ?thesis by (elim disjE) (simp_all add: openingFence_def numeral_nat)
qed

lemma replaceDummy_replaces:
  fixes pre b1 X b2 post :: string
  defines "fullText \<equiv> pre @ openingFence @ b1 @ X @ b2 @ closingFence @ post"
  assumes only: "occurrences X fullText = [length pre + 8 + length b1]"
    and nofence: "\<not> sublist closingFence (b1 @ X @ b2 @ ''``'')"
    and url: "sublist (urlLine url) (openingFence @ b1 @ X @ b2 @ closingFence)"
  shows "replaceDummy fullText X url embedMarkdown = (pre @ trimEnd embedMarkdown @ post, [])"
proof -
  let ?i0 = "length pre + length openingFence + length b1"
  have only': "\<forall>j. occursAt X (pre @ openingFence @ b1 @ X @ b2 @ closingFence @ post) j \<longrightarrow> j = ?i0"
    using only set_occurrences[of X fullText]
    by (auto simp: fullText_def openingFence_length)
  note loc = located[OF closingFence_split _ closingFence_prefix openingFence_self only' nofence]
  have p: "indexOf fullText X 0 = int ?i0"
    unfolding fullText_def by (rule loc(1)) simp
  have s: "lastIndexOf fullText openingFence ?i0 = int (length pre)"
    unfolding fullText_def by (rule loc(2)) simp
  have e: "indexOf fullText closingFence ?i0 = int (?i0 + length X + length b2)"
    unfolding fullText_def by (rule loc(3)) simp
  have blk: "substring fullText (length pre) (?i0 + length X + length b2 + 3)
      = openingFence @ b1 @ X @ b2 @ closingFence"
    by (simp add: substring_def fullText_def closingFence_length Let_def min_def max_def)
  have rep: "replaceRange r (length pre) (?i0 + length X + length b2 + 3) fullText = pre @ r @ post" for r
    by (simp add: replaceRange_def fullText_def closingFence_length)
  have e3: "nat (int (?i0 + length X + length b2) + 3) = ?i0 + length X + length b2 + 3"
    by simp
  show ?thesis
    unfolding replaceDummy_def Let_def p nat_int s e e3 blk rep
    using url by (simp add: includesText_sublist)
qed

lemma id_gone:
  fixes pre b1 X b2 post :: string
  defines "fullText \<equiv> pre @ openingFence @ b1 @ X @ b2 @ closingFence @ post"
  assumes only: "occurrences X fullText = [length pre + 8 + length b1]"
    and tick: "CHR 0x60 \<notin> set X"
    and fenced: "r = openingFence @ body @ closingFence"
    and fresh: "\<not> sublist X r"
  shows "\<not> sublist X (pre @ r @ post)"
proof -
  let ?i0 = "length pre + 8 + length b1"
  have only': "\<And>j. occursAt X fullText j \<Longrightarrow> j = ?i0"
    using only set_occurrences[of X fullText] by auto
  have Xne: "X \<noteq> []"
  proof
    assume "X = []"
    then have "occursAt X fullText 0" by (simp add: occursAt_def)
    then show False using only' by fastforce
  qed
  have A: "\<not> sublist X pre"
  proof
    assume "sublist X pre"
    then obtain ps ss where ps: "pre = ps @ X @ ss" by (auto simp: sublist_def)
    have "occursAt X (ps @ X @ (ss @ openingFence @ b1 @ X @ b2 @ closingFence @ post)) (length ps)"
      by (rule occursAt_here)
    then have "occursAt X fullText (length ps)" by (simp add: fullText_def ps)
    then have "length ps = ?i0" by (rule only')
    then show False using ps by simp
  qed
  have C: "\<not> sublist X post"
  proof
    assume "sublist X post"
    then obtain ps ss where ps: "post = ps @ X @ ss" by (auto simp: sublist_def)
    have "occursAt X ((pre @ openingFence @ b1 @ X @ b2 @ closingFence @ ps) @ X @ ss)
            (length (pre @ openingFence @ b1 @ X @ b2 @ closingFence @ ps))"
      by (rule occursAt_here)
    then have "occursAt X fullText (length (pre @ openingFence @ b1 @ X @ b2 @ closingFence @ ps))"
      by (simp add: fullText_def ps)
    then have "length (pre @ openingFence @ b1 @ X @ b2 @ closingFence @ ps) = ?i0" by (rule only')
    then show False using Xne by (simp add: openingFence_length)
  qed
  have h: "r = CHR 0x60 # (''``embed'' @ body @ closingFence)"
    by (simp add: fenced openingFence_def)
  have l: "r = (openingFence @ body @ ''``'') @ [CHR 0x60]"
    by (simp add: fenced closingFence_def)
  show ?thesis by (rule no_straddle[OF A fresh C h l tick])
qed

lemma replaceDummy_cancels:
  assumes "\<not> sublist X fullText
      \<or> (\<forall>j. j \<le> nat (indexOf fullText X 0) \<longrightarrow> \<not> occursAt openingFence fullText j)
      \<or> (\<forall>j. nat (indexOf fullText X 0) \<le> j \<longrightarrow> \<not> occursAt closingFence fullText j)
      \<or> \<not> sublist (urlLine url) (locatedBlock fullText X)"
  shows "replaceDummy fullText X url embedMarkdown = (fullText, [cancelledText])"
proof (cases "indexOf fullText X 0 = - 1")
  case True
  then show ?thesis by (simp add: replaceDummy_def)
next
  case False
  let ?p = "nat (indexOf fullText X 0)"
  have found: "sublist X fullText" using False by (simp add: indexOf_absent)
  have plen: "?p \<le> length fullText"
    using indexOf_found[OF False] by (simp add: occursAt_def)
  from assms found consider
      (start) "\<forall>j. j \<le> ?p \<longrightarrow> \<not> occursAt openingFence fullText j"
    | (stop) "\<forall>j. ?p \<le> j \<longrightarrow> \<not> occursAt closingFence fullText j"
    | (url) "\<not> sublist (urlLine url) (locatedBlock fullText X)"
    by blast
  then show ?thesis
  proof cases
    case start
    then have "lastIndexOf fullText openingFence ?p = - 1" by (simp add: lastIndexOf_none)
    then show ?thesis using False by (simp add: replaceDummy_def Let_def)
  next
    case stop
    then have "indexOf fullText closingFence ?p = - 1"
      using plen by (simp add: indexOf_none min_def)
    then show ?thesis using False by (simp add: replaceDummy_def Let_def)
  next
    case url
    then show ?thesis
      using False by (simp add: replaceDummy_def locatedBlock_def Let_def includesText_sublist)
  qed
qed

lemma scanAll_filter:
  "filter (occursAt x (a @ s)) [length a ..< Suc (length (a @ s))] = scanAll x s (length a)"
proof (induction s arbitrary: a)
  case Nil
  then show ?case by (simp add: occursAt_def)
next
  case (Cons c cs)
  have range: "[length a ..< Suc (length (a @ c # cs))]
      = length a # [length (a @ [c]) ..< Suc (length ((a @ [c]) @ cs))]"
  proof -
    have "length a < Suc (length (a @ c # cs))" by simp
    from upt_conv_Cons[OF this] show ?thesis by (simp del: upt_Suc)
  qed
  have here: "occursAt x (a @ c # cs) (length a) \<longleftrightarrow> prefix x (c # cs)"
    by (simp add: occursAt_def)
  have ih: "filter (occursAt x ((a @ [c]) @ cs)) [length (a @ [c]) ..< Suc (length ((a @ [c]) @ cs))]
      = scanAll x cs (length a + 1)"
    using Cons.IH[of "a @ [c]"] by simp
  have same: "occursAt x ((a @ [c]) @ cs) = occursAt x (a @ c # cs)" by simp
  show ?case
    unfolding range using here ih unfolding same by simp
qed

lemma occurrences_code [code]: "occurrences x s = scanAll x s 0"
  using scanAll_filter[of x "[]" s] by (simp add: occurrences_def)

lemma find_filter_hd:
  "find P xs = (case filter P xs of [] \<Rightarrow> None | y # _ \<Rightarrow> Some y)"
  by (induction xs) simp_all

lemma filter_upt_from:
  assumes "k \<le> n"
  shows "filter P [k ..< n] = filter (\<lambda>j. k \<le> j) (filter P [0 ..< n])"
proof -
  have split: "[0 ..< n] = [0 ..< k] @ [k ..< n]"
    using assms upt_add_eq_append[of 0 k "n - k"] by simp
  have a: "filter (\<lambda>j. P j \<and> k \<le> j) [0 ..< k] = []" by (auto simp: filter_empty_conv)
  have b: "filter (\<lambda>j. P j \<and> k \<le> j) [k ..< n] = filter P [k ..< n]"
    by (rule filter_cong) auto
  show ?thesis unfolding split by (simp add: a b)
qed

lemma filter_upt_upto:
  assumes "m \<le> n"
  shows "filter P [0 ..< Suc m] = filter (\<lambda>j. j \<le> m) (filter P [0 ..< Suc n])"
proof -
  have split: "[0 ..< Suc n] = [0 ..< Suc m] @ [Suc m ..< Suc n]"
    using assms upt_add_eq_append[of 0 "Suc m" "n - m"] by simp
  have a: "filter (\<lambda>j. P j \<and> j \<le> m) [Suc m ..< Suc n] = []" by (auto simp: filter_empty_conv)
  have b: "filter (\<lambda>j. P j \<and> j \<le> m) [0 ..< Suc m] = filter P [0 ..< Suc m]"
    by (rule filter_cong) auto
  show ?thesis unfolding split by (simp add: a b del: upt_Suc)
qed

lemma indexOf_code [code]:
  "indexOf s x fromIndex =
     (case filter (\<lambda>j. min fromIndex (length s) \<le> j) (occurrences x s) of
        [] \<Rightarrow> - 1
      | j # _ \<Rightarrow> int j)"
proof -
  have "filter (occursAt x s) [min fromIndex (length s) ..< Suc (length s)]
      = filter (\<lambda>j. min fromIndex (length s) \<le> j) (occurrences x s)"
    unfolding occurrences_def by (rule filter_upt_from) simp
  then show ?thesis
    by (simp add: indexOf_def find_filter_hd split: list.splits)
qed

lemma lastIndexOf_code [code]:
  "lastIndexOf s x fromIndex =
     (case rev (filter (\<lambda>j. j \<le> min fromIndex (length s)) (occurrences x s)) of
        [] \<Rightarrow> - 1
      | j # _ \<Rightarrow> int j)"
proof -
  have "filter (occursAt x s) [0 ..< Suc (min fromIndex (length s))]
      = filter (\<lambda>j. j \<le> min fromIndex (length s)) (occurrences x s)"
    unfolding occurrences_def by (rule filter_upt_upto) simp
  then show ?thesis
    by (simp add: lastIndexOf_def find_filter_hd rev_filter[symmetric] split: list.splits del: upt_Suc)
qed

lemmas doc_eval =
  dummyEmbed_def embedBlock_def keyValue_def blockTemplate_def demoDoc_def demoFinal_def
  fenceUrl_def tickUrl_def openingFence_def closingFence_def urlLine_def

lemma demoId_generated: "demoId = placeholderId 1730000000000 demoDigits"
  by (simp add: demoId_def demoDigits_def placeholderId_def decimalText_digit decimalText_more
      digitChar_def)

lemma digitChar_no_tick: "digitChar d \<noteq> CHR 0x60"
proof -
  have "digitChar d \<in> set ''0123456789abcdefghijklmnopqrstuvwxyz''"
    unfolding digitChar_def by (rule nth_mem) simp
  then show ?thesis by auto
qed

lemma decimalText_no_tick: "CHR 0x60 \<notin> set (decimalText n)"
proof (induction n rule: decimalText.induct)
  case (1 n)
  show ?case
  proof (cases "n < 10")
    case True
    then show ?thesis using digitChar_no_tick[of n] by (subst decimalText.simps) auto
  next
    case False
    then show ?thesis
      using 1 digitChar_no_tick[of "n mod 10"] by (subst decimalText.simps) auto
  qed
qed

lemma placeholderId_no_tick: "CHR 0x60 \<notin> set (placeholderId now digits36)"
proof -
  have "CHR 0x60 \<notin> set (take 9 (map digitChar digits36))"
    using digitChar_no_tick by (auto dest!: in_set_takeD) metis
  then show ?thesis using decimalText_no_tick[of now] by (simp add: placeholderId_def)
qed

text \<open>
  What the three searches need in order to locate the block
  \<^verbatim>\<open>op @ b1 @ X @ b2 @ cl\<close> of a document: the id \<^verbatim>\<open>X\<close> does not occur earlier, the opening
  fence does not occur again up to the id, and the closing fence does not occur from
  the id on before the end of the block.
\<close>

lemma located_exact:
  fixes pre b1 X b2 post op cl :: string
  defines "fullText \<equiv> pre @ op @ b1 @ X @ b2 @ cl @ post"
  defines "i0 \<equiv> length pre + length op + length b1"
  assumes first: "\<forall>j. j < i0 \<longrightarrow> \<not> occursAt X fullText j"
    and no_open: "\<forall>j. length pre < j \<and> j \<le> i0 \<longrightarrow> \<not> occursAt op fullText j"
    and no_close: "\<forall>j. i0 \<le> j \<and> j < i0 + length X + length b2 \<longrightarrow> \<not> occursAt cl fullText j"
  shows "indexOf fullText X 0 = int i0"
    and "lastIndexOf fullText op i0 = int (length pre)"
    and "indexOf fullText cl i0 = int (i0 + length X + length b2)"
proof -
  have at_i0: "occursAt X fullText i0"
  proof -
    have "occursAt X ((pre @ op @ b1) @ X @ (b2 @ cl @ post)) (length (pre @ op @ b1))"
      by (rule occursAt_here)
    then show ?thesis by (simp add: fullText_def i0_def add.assoc)
  qed
  show "indexOf fullText X 0 = int i0"
  proof (rule indexOf_eq)
    show "0 \<le> i0" by simp
    show "occursAt X fullText i0" by (rule at_i0)
    show "\<forall>i. 0 \<le> i \<and> i < i0 \<longrightarrow> \<not> occursAt X fullText i" using first by auto
  qed
  show "lastIndexOf fullText op i0 = int (length pre)"
  proof (rule lastIndexOf_eq)
    show "length pre \<le> i0" by (simp add: i0_def)
    show "occursAt op fullText (length pre)" unfolding fullText_def by (rule occursAt_here)
    show "\<forall>i. length pre < i \<and> i \<le> i0 \<longrightarrow> \<not> occursAt op fullText i" by (rule no_open)
  qed
  have at_end: "occursAt cl fullText (i0 + length X + length b2)"
  proof -
    have "occursAt cl ((pre @ op @ b1 @ X @ b2) @ cl @ post) (length (pre @ op @ b1 @ X @ b2))"
      by (rule occursAt_here)
    then show ?thesis by (simp add: fullText_def i0_def add.assoc)
  qed
  show "indexOf fullText cl i0 = int (i0 + length X + length b2)"
  proof (rule indexOf_eq)
    show "i0 \<le> i0 + length X + length b2" by simp
    show "occursAt cl fullText (i0 + length X + length b2)" by (rule at_end)
    show "\<forall>i. i0 \<le> i \<and> i < i0 + length X + length b2 \<longrightarrow> \<not> occursAt cl fullText i"
      by (rule no_close)
  qed
qed

lemma replaceDummy_replaces_located:
  fixes pre b1 X b2 post :: string
  defines "fullText \<equiv> pre @ openingFence @ b1 @ X @ b2 @ closingFence @ post"
  defines "i0 \<equiv> length pre + length openingFence + length b1"
  assumes first: "\<forall>j. j < i0 \<longrightarrow> \<not> occursAt X fullText j"
    and no_open: "\<forall>j. length pre < j \<and> j \<le> i0 \<longrightarrow> \<not> occursAt openingFence fullText j"
    and no_close: "\<forall>j. i0 \<le> j \<and> j < i0 + length X + length b2
                     \<longrightarrow> \<not> occursAt closingFence fullText j"
    and url: "sublist (urlLine url) (openingFence @ b1 @ X @ b2 @ closingFence)"
  shows "replaceDummy fullText X url embedMarkdown = (pre @ trimEnd embedMarkdown @ post, [])"
proof -
  note loc = located_exact[OF first[unfolded fullText_def i0_def]
      no_open[unfolded fullText_def i0_def] no_close[unfolded fullText_def i0_def]]
  have p: "indexOf fullText X 0 = int i0"
    unfolding fullText_def i0_def by (rule loc(1))
  have s: "lastIndexOf fullText openingFence i0 = int (length pre)"
    unfolding fullText_def i0_def by (rule loc(2))
  have e: "indexOf fullText closingFence i0 = int (i0 + length X + length b2)"
    unfolding fullText_def i0_def by (rule loc(3))
  have blk: "substring fullText (length pre) (i0 + length X + length b2 + 3)
      = openingFence @ b1 @ X @ b2 @ closingFence"
    by (simp add: substring_def fullText_def i0_def closingFence_length Let_def min_def max_def)
  have rep: "replaceRange r (length pre) (i0 + length X + length b2 + 3) fullText = pre @ r @ post"
    for r by (simp add: replaceRange_def fullText_def i0_def closingFence_length)
  have e3: "nat (int (i0 + length X + length b2) + 3) = i0 + length X + length b2 + 3"
    by simp
  show ?thesis
    unfolding replaceDummy_def Let_def p nat_int s e e3 blk rep
    using url by (simp add: includesText_sublist)
qed

text \<open>The \<^verbatim>\<open>try\<close> block when the orchestrator resolves and the markdown is generated.\<close>

lemma resolve_replaceDummy:
  assumes "fst (tryParsers P url selectedParsers st loc) = Inr (data, selectedParser)"
    and "generateEmbedMarkdown M data st selectedParser = Inr embedMarkdown"
  shows "embedUrlResolve M P url selectedParsers st loc X fullText
      = (fst (replaceDummy fullText X url embedMarkdown),
         map NewNotice (snd (replaceDummy fullText X url embedMarkdown)))"
  using assms by (simp add: embedUrlResolve_def split: prod.splits)

text \<open>
  When the generation of the markdown throws, the \<^verbatim>\<open>catch\<close> block shows the error; the
  document is not searched and stays as it is.
\<close>

lemma resolve_generation_throws:
  assumes "fst (tryParsers P url selectedParsers st loc) = Inr (data, selectedParser)"
    and "generateEmbedMarkdown M data st selectedParser = Inl e"
  shows "embedUrlResolve M P url selectedParsers st loc X fullText
      = (fullText, [embedErrorNotice st e])"
  using assms by (simp add: embedUrlResolve_def)

lemma embedUrl_steps:
  assumes "renderMarkdown M
             \<lparr>esc_title = ''Fetching'', esc_image = Some (spinnerImage M),
              esc_description = ''Fetching '' @ url, esc_url = Some url,
              esc_metadata = Some (''placeholder-id: '' @ [CHR 0x22] @ placeholderId now digits36
                                     @ [CHR 0x22]),
              esc_aspectRatio = None, esc_favicon = Some []\<rparr> = Inr rendered"
    and "fst (tryParsers P url selectedParsers st (''unknown:'' @ decimalText (cursorLine + 1)))
           = Inr (data, selectedParser)"
    and "generateEmbedMarkdown M data st selectedParser = Inr embedMarkdown"
  shows "embedUrl M P now digits36 url selectedParsers st cursorLine before after edit
      = Inr (fst (replaceDummy (edit (before @ (rendered @ [CHR 0x0A]) @ after))
                    (placeholderId now digits36) url embedMarkdown),
             map NewNotice (snd (replaceDummy (edit (before @ (rendered @ [CHR 0x0A]) @ after))
                    (placeholderId now digits36) url embedMarkdown)))"
  using assms(1) resolve_replaceDummy[OF assms(2,3)]
  by (simp add: embedUrl_def Let_def)

text \<open>The run of the concrete environment on a page with a title.\<close>

lemma demo_rendered:
  "renderMarkdown demoMarkdown
     \<lparr>esc_title = ''Fetching'', esc_image = Some (spinnerImage demoMarkdown),
      esc_description = ''Fetching '' @ u, esc_url = Some u,
      esc_metadata = Some (''placeholder-id: '' @ [CHR 0x22]
                             @ placeholderId 1730000000000 demoDigits
                             @ [CHR 0x22]),
      esc_aspectRatio = None, esc_favicon = Some []\<rparr> = Inr (dummyEmbed u demoId)"
  unfolding demoId_generated[symmetric]
  by (simp add: demoMarkdown_def blockTemplate_def dummyEmbed_def keyValue_def)

lemma demo_resolved:
  "fst (tryParsers demoPages u [''jsonlink''] demoSettings ''unknown:1'')
     = Inr (demoPage u, ''jsonlink'')"
  by (simp add: tryParsers_def tp_init_def hideNotice_def newNotice_def emit_def attempt_def
        demoPages_def Let_def)

lemma demo_location: "''unknown:'' @ decimalText (0 + 1) = ''unknown:1''"
  by (simp add: decimalText_digit digitChar_def)

lemma demo_generated:
  assumes "u \<noteq> ''https://untitled.example''"
  shows "generateEmbedMarkdown demoMarkdown (demoPage u) demoSettings ''jsonlink''
     = Inr (demoFinal u @ [CHR 0x0A])"
  using assms
  by (simp add: generateEmbedMarkdown_def demoMarkdown_def demoPage_def demoSettings_def
      escapeQuotes_def blockTemplate_def demoFinal_def)

lemma demo_not_generated:
  "generateEmbedMarkdown demoMarkdown (demoPage ''https://untitled.example'') demoSettings
     ''jsonlink'' = Inl (ErrorObj ''Cannot read properties of undefined (reading replace)'')"
  by (simp add: generateEmbedMarkdown_def demoMarkdown_def demoPage_def demoSettings_def)

lemma demo_steps:
  assumes "u \<noteq> ''https://untitled.example''"
  shows "embedUrl demoMarkdown demoPages 1730000000000 demoDigits u [''jsonlink''] demoSettings 0
       before after (\<lambda>doc. doc)
      = Inr (fst (replaceDummy (before @ (dummyEmbed u demoId @ [CHR 0x0A]) @ after) demoId u
                    (demoFinal u @ [CHR 0x0A])),
             map NewNotice (snd (replaceDummy (before @ (dummyEmbed u demoId @ [CHR 0x0A]) @ after)
                    demoId u (demoFinal u @ [CHR 0x0A]))))"
proof -
  have r: "fst (tryParsers demoPages u [''jsonlink''] demoSettings
                  (''unknown:'' @ decimalText (0 + 1))) = Inr (demoPage u, ''jsonlink'')"
    unfolding demo_location by (rule demo_resolved)
  show ?thesis
    using embedUrl_steps[where edit = "\<lambda>doc. doc" and before = before and after = after,
        OF demo_rendered r demo_generated[OF assms]]
    by (simp add: demoId_generated)
qed

subsection \<open>The dummy is replaced\<close>

text \<open>
  In a note with a line of text before and after the cursor, the dummy for
  \<^verbatim>\<open>https://example.com\<close> is replaced by the final block and the id is gone. So is the
  dummy for a URL with three backticks in its path, as long as they are not followed
  by \<^verbatim>\<open>embed\<close>.
\<close>

lemma embedUrl_replaces_demo:
  "embedUrl demoMarkdown demoPages 1730000000000 demoDigits ''https://example.com'' [''jsonlink'']
       demoSettings 0 (''# Notes'' @ [CHR 0x0A]) ''The end.'' (\<lambda>doc. doc)
     = Inr (''# Notes'' @ [CHR 0x0A] @ demoFinal ''https://example.com'' @ [CHR 0x0A] @ ''The end.'',
            [])"
proof -
  have "replaceDummy ((''# Notes'' @ [CHR 0x0A])
          @ (dummyEmbed ''https://example.com'' demoId @ [CHR 0x0A]) @ ''The end.'') demoId
          ''https://example.com'' (demoFinal ''https://example.com'' @ [CHR 0x0A])
      = (''# Notes'' @ [CHR 0x0A] @ demoFinal ''https://example.com'' @ [CHR 0x0A] @ ''The end.'',
         [])"
    by code_simp
  then show ?thesis
    using demo_steps[of "''https://example.com''" "''# Notes'' @ [CHR 0x0A]" "''The end.''"]
    by simp
qed

lemma embedUrl_replaces_ticks:
  "embedUrl demoMarkdown demoPages 1730000000000 demoDigits tickUrl [''jsonlink'']
       demoSettings 0 [] [] (\<lambda>doc. doc)
     = Inr (demoFinal tickUrl @ [CHR 0x0A], [])"
proof -
  have "replaceDummy ([] @ (dummyEmbed tickUrl demoId @ [CHR 0x0A]) @ []) demoId
          tickUrl (demoFinal tickUrl @ [CHR 0x0A])
      = (demoFinal tickUrl @ [CHR 0x0A], [])"
    by code_simp
  moreover have "tickUrl \<noteq> ''https://untitled.example''" by (simp add: tickUrl_def)
  ultimately show ?thesis
    using demo_steps[of tickUrl "[]" "[]"] by simp
qed

text \<open>
  Claim C3 does not hold of the code. The claim covers every document with a dummy
  block that holds the id, nowhere else, and the URL line. Let \<^verbatim>\<open>embedUrl\<close> be called in an
  empty note for a URL with \<^verbatim>\<open>```embed\<close> in its path, let the orchestrator resolve, and let
  nobody touch the note meanwhile. The note then is the dummy that \<^verbatim>\<open>embedUrl\<close> itself has
  written: it begins with the opening fence and ends with the closing fence and a line
  feed, the id occurs in it once, and the URL line is there. But the search for the
  opening fence, backwards from the id, stops at the marker inside the URL line; the
  text located from there has no URL line, and the replacement is cancelled: the note
  keeps the dummy, and the notice says that it has been deleted or modified.
\<close>

theorem embedUrl_cancels_intact_dummy:
  "fst (tryParsers demoPages fenceUrl [''jsonlink''] demoSettings ''unknown:1'')
     = Inr (demoPage fenceUrl, ''jsonlink'')
   \<and> generateEmbedMarkdown demoMarkdown (demoPage fenceUrl) demoSettings ''jsonlink''
     = Inr (demoFinal fenceUrl @ [CHR 0x0A])
   \<and> prefix openingFence (dummyEmbed fenceUrl demoId)
   \<and> suffix closingFence (dummyEmbed fenceUrl demoId)
   \<and> occurrences demoId (dummyEmbed fenceUrl demoId @ [CHR 0x0A]) = [154]
   \<and> sublist (urlLine fenceUrl) (dummyEmbed fenceUrl demoId)
   \<and> lastIndexOf (dummyEmbed fenceUrl demoId @ [CHR 0x0A]) openingFence 154 = 127
   \<and> embedUrl demoMarkdown demoPages 1730000000000 demoDigits fenceUrl [''jsonlink'']
       demoSettings 0 [] [] (\<lambda>doc. doc)
     = Inr (dummyEmbed fenceUrl demoId @ [CHR 0x0A], [NewNotice cancelledText])"
proof -
  have n: "fenceUrl \<noteq> ''https://untitled.example''" by (simp add: fenceUrl_def)
  have a: "occurrences demoId (dummyEmbed fenceUrl demoId @ [CHR 0x0A]) = [154]" by code_simp
  have b: "sublist (urlLine fenceUrl) (dummyEmbed fenceUrl demoId)" by code_simp
  have c: "replaceDummy ([] @ (dummyEmbed fenceUrl demoId @ [CHR 0x0A]) @ []) demoId fenceUrl
      (demoFinal fenceUrl @ [CHR 0x0A]) = (dummyEmbed fenceUrl demoId @ [CHR 0x0A], [cancelledText])"
    by code_simp
  have d: "prefix openingFence (dummyEmbed fenceUrl demoId)"
    by (simp add: dummyEmbed_def embedBlock_def)
  have e: "suffix closingFence (dummyEmbed fenceUrl demoId)"
    by (simp add: dummyEmbed_def embedBlock_def suffix_def)
  have f: "lastIndexOf (dummyEmbed fenceUrl demoId @ [CHR 0x0A]) openingFence 154 = 127"
    by code_simp
  have g: "embedUrl demoMarkdown demoPages 1730000000000 demoDigits fenceUrl [''jsonlink'']
       demoSettings 0 [] [] (\<lambda>doc. doc)
     = Inr (dummyEmbed fenceUrl demoId @ [CHR 0x0A], [NewNotice cancelledText])"
    using demo_steps[OF n, of "[]" "[]"] c by simp
  show ?thesis using a b d e f g demo_resolved[of fenceUrl] demo_generated[OF n] by blast
qed

subsection \<open>The replacement is cancelled\<close>

text \<open>
  Claim C4. In the replacement step, if the placeholder id does not occur in the
  document, or the opening fence occurs at no position up to the first occurrence of the
  id, or the closing fence occurs at no position from there on, or the located block
  does not contain the text \<^verbatim>\<open>url: "u"\<close>, then the document is left as it is and the one
  notice created says that the dummy preview has been deleted or modified. The step is
  reached, and this is all that the \<^verbatim>\<open>try\<close> block of \<^verbatim>\<open>embedUrl\<close> does to the document and
  shows, when the orchestrator has resolved and the final markdown has been generated.
\<close>

theorem embedUrl_cancels:
  assumes stale: "\<not> sublist X fullText
      \<or> (\<forall>j. j \<le> nat (indexOf fullText X 0) \<longrightarrow> \<not> occursAt openingFence fullText j)
      \<or> (\<forall>j. nat (indexOf fullText X 0) \<le> j \<longrightarrow> \<not> occursAt closingFence fullText j)
      \<or> \<not> sublist (urlLine url) (locatedBlock fullText X)"
  shows "replaceDummy fullText X url embedMarkdown = (fullText, [cancelledText])
       \<and> (fst (tryParsers P url selectedParsers st loc) = Inr (data, selectedParser)
            \<and> generateEmbedMarkdown M data st selectedParser = Inr embedMarkdown \<longrightarrow>
          embedUrlResolve M P url selectedParsers st loc X fullText
            = (fullText, [NewNotice cancelledText]))"
  using replaceDummy_cancels[OF stale, of embedMarkdown]
  by (auto simp: resolve_replaceDummy)

text \<open>The theorem at a note without the dummy, at a note whose dummy has another URL, and at
  a dummy whose closing fence is gone.\<close>

theorem embedUrl_cancels_witness:
  "\<not> sublist demoId deletedDoc
   \<and> \<not> sublist (urlLine ''https://example.com'') (locatedBlock editedDoc demoId)
   \<and> indexOf unclosedDoc closingFence (nat (indexOf unclosedDoc demoId 0)) = - 1
   \<and> fst (tryParsers demoPages ''https://example.com'' [''jsonlink''] demoSettings ''unknown:1'')
       = Inr (demoPage ''https://example.com'', ''jsonlink'')
   \<and> generateEmbedMarkdown demoMarkdown (demoPage ''https://example.com'') demoSettings ''jsonlink''
       = Inr (demoFinal ''https://example.com'' @ [CHR 0x0A])
   \<and> embedUrlResolve demoMarkdown demoPages ''https://example.com'' [''jsonlink''] demoSettings
       ''unknown:1'' demoId deletedDoc = (deletedDoc, [NewNotice cancelledText])
   \<and> embedUrlResolve demoMarkdown demoPages ''https://example.com'' [''jsonlink''] demoSettings
       ''unknown:1'' demoId editedDoc = (editedDoc, [NewNotice cancelledText])
   \<and> embedUrlResolve demoMarkdown demoPages ''https://example.com'' [''jsonlink''] demoSettings
       ''unknown:1'' demoId unclosedDoc = (unclosedDoc, [NewNotice cancelledText])"
proof -
  have d: "\<not> sublist demoId deletedDoc" by code_simp
  have e: "\<not> sublist (urlLine ''https://example.com'') (locatedBlock editedDoc demoId)"
    by code_simp
  have i: "indexOf unclosedDoc closingFence (nat (indexOf unclosedDoc demoId 0)) = - 1"
    by code_simp
  moreover have "nat (indexOf unclosedDoc demoId 0) \<le> length unclosedDoc" by code_simp
  ultimately have u: "\<forall>j. nat (indexOf unclosedDoc demoId 0) \<le> j
      \<longrightarrow> \<not> occursAt closingFence unclosedDoc j"
    by (simp add: indexOf_none min_def)
  have n: "''https://example.com'' \<noteq> ''https://untitled.example''" by simp
  note r = demo_resolved[of "''https://example.com''"]
  note g = demo_generated[OF n]
  have d': "embedUrlResolve demoMarkdown demoPages ''https://example.com'' [''jsonlink''] demoSettings
       ''unknown:1'' demoId deletedDoc = (deletedDoc, [NewNotice cancelledText])"
    using embedUrl_cancels[of demoId deletedDoc "''https://example.com''"
        "demoFinal ''https://example.com'' @ [CHR 0x0A]" demoPages "[''jsonlink'']" demoSettings
        "''unknown:1''" "demoPage ''https://example.com''" "''jsonlink''" demoMarkdown]
      d r g by blast
  have e': "embedUrlResolve demoMarkdown demoPages ''https://example.com'' [''jsonlink''] demoSettings
       ''unknown:1'' demoId editedDoc = (editedDoc, [NewNotice cancelledText])"
    using embedUrl_cancels[of demoId editedDoc "''https://example.com''"
        "demoFinal ''https://example.com'' @ [CHR 0x0A]" demoPages "[''jsonlink'']" demoSettings
        "''unknown:1''" "demoPage ''https://example.com''" "''jsonlink''" demoMarkdown]
      e r g by blast
  have u': "embedUrlResolve demoMarkdown demoPages ''https://example.com'' [''jsonlink''] demoSettings
       ''unknown:1'' demoId unclosedDoc = (unclosedDoc, [NewNotice cancelledText])"
    using embedUrl_cancels[of demoId unclosedDoc "''https://example.com''"
        "demoFinal ''https://example.com'' @ [CHR 0x0A]" demoPages "[''jsonlink'']" demoSettings
        "''unknown:1''" "demoPage ''https://example.com''" "''jsonlink''" demoMarkdown]
      u r g by blast
  show ?thesis using d e i r g d' e' u' by blast
qed

text \<open>
  When the generation throws, as for a page without a title, no search takes place: the
  error is shown instead of the notice above, and the dummy stays in the note.
\<close>

lemma embedUrl_generation_throws_demo:
  "embedUrlResolve demoMarkdown demoPages ''https://untitled.example'' [''jsonlink''] demoSettings
       ''unknown:1'' demoId deletedDoc
     = (deletedDoc,
        [embedErrorNotice demoSettings
           (ErrorObj ''Cannot read properties of undefined (reading replace)'')])"
  by (rule resolve_generation_throws[OF demo_resolved demo_not_generated])

end
